theory Spec2Isabelle
  imports Complex_Main "HOL-Library.Word" "HOL-Library.Signed_Division" "HOL-Library.Multiset"
    "HOL-Library.Product_Lexorder"
begin

section \<open>The turn-based battle simulator: data model\<close>

text \<open>
  Go's \<^verbatim>\<open>int\<close> is modelled as a 64-bit word (the size it has on amd64 and arm64):
  \<open>+\<close> and \<open>-\<close> wrap around, comparisons are the signed ones (\<open><s\<close>, \<open>\<le>s\<close>),
  and \<^verbatim>\<open>/\<close> truncates towards zero.
\<close>

type_synonym gint = "64 word"

definition gdiv :: "gint \<Rightarrow> gint \<Rightarrow> gint" where
  "gdiv a b = word_of_int (sint a sdiv sint b)"

text \<open>
  \<^verbatim>\<open>type DamageType string\<close> with three named constants; any other string (the zero value
  \<^verbatim>\<open>""\<close> included) is a value of the type too.
\<close>

type_synonym DamageType = string

definition Physical :: DamageType where "Physical = ''physical''"
definition Magic_type :: DamageType where "Magic_type = ''magic''"
definition Pure :: DamageType where "Pure = ''pure''"

text \<open>
  A \<^verbatim>\<open>float64\<close> field is a real number (every finite float is one, and the comparisons of
  the code are the comparisons of the reals); the one rounding operation of the code,
  \<^verbatim>\<open>int(float64(n) * m)\<close>, is a parameter of the model (\<open>fmul\<close> below).
\<close>

record Stats =
  HPMax :: gint
  HP :: gint
  MPMax :: gint
  MP :: gint
  Attack :: gint
  Defense :: gint
  Magic :: gint
  Resist :: gint
  Speed :: gint
  CritRate :: real
  CritMult :: real

record Weapon =
  WName :: string
  DamageMin :: gint
  DamageMax :: gint
  WDamageType :: DamageType
  AttackBonus :: gint
  MagicBonus :: gint

record Armor =
  AName :: string
  DefenseBonus :: gint
  ResistBonus :: gint
  HPBonus :: gint

record Effect =
  EID :: string
  EName :: string
  Duration :: gint
  AtkMod :: gint
  DefMod :: gint
  SpeedMod :: gint
  DotHP :: gint
  From :: string

record Skill =
  SID :: string
  SName :: string
  Description :: string
  MPCost :: gint
  DamageMultiplier :: real
  DamageType :: DamageType
  HealHP :: gint
  TargetAll :: bool
  SEffect :: "Effect option"

text \<open>
  \<^verbatim>\<open>Character\<close>. The pointer fields \<^verbatim>\<open>Weapon\<close> and \<^verbatim>\<open>Armor\<close> are options (\<open>None\<close> is
  \<^verbatim>\<open>nil\<close>): the records they point to are never written. The inventory \<^verbatim>\<open>Inv\<close> is left
  out: no function of the battle reads or writes it.
\<close>

record Character =
  ID :: string
  Name :: string
  Stats :: Stats
  Weapon :: "Weapon option"
  Armor :: "Armor option"
  Skills :: "Skill list"
  Effects :: "Effect list"
  Alive :: bool
  Team :: string

text \<open>
  Every \<^verbatim>\<open>logFunc(fmt.Sprintf(...))\<close> of the source is one constructor, which carries the
  arguments of the format string.
\<close>

datatype msg =
    MDot string gint
  | MEffectEnded string string
  | MDied string
  | MGains string string gint
  | MEquipsWeapon string string
  | MEquipsArmor string string
  | MCrit string
  | MAttacks string string gint DamageType
  | MInvalidSkill string
  | MLacksMP string string
  | MUses string string
  | MSkillCrit string
  | MDeals string gint string string
  | MHeals string string gint
  | MRound gint
  | MThinking string
  | MPlayersWin
  | MEnemiesWin

section \<open>Methods of \<^verbatim>\<open>Character\<close> that touch one character only\<close>

definition Tick :: "Effect \<Rightarrow> Effect" where
  "Tick e = e\<lparr>Duration := Duration e - 1\<rparr>"

definition NewCharacter :: "string \<Rightarrow> string \<Rightarrow> string \<Rightarrow> Stats \<Rightarrow> Character" where
  "NewCharacter cid name team baseStats =
     \<lparr>ID = cid, Name = name,
      Stats = baseStats\<lparr>HP := HPMax baseStats, MP := MPMax baseStats\<rparr>,
      Weapon = None, Armor = None, Skills = [], Effects = [], Alive = True, Team = team\<rparr>"

definition EffectiveAttack :: "Character \<Rightarrow> gint" where
  "EffectiveAttack c =
     fold (\<lambda>e atk. atk + AtkMod e) (Effects c)
       (case Weapon c of None \<Rightarrow> Attack (Stats c) | Some w \<Rightarrow> Attack (Stats c) + AttackBonus w)"

definition EffectiveDefense :: "Character \<Rightarrow> gint" where
  "EffectiveDefense c =
     fold (\<lambda>e d. d + DefMod e) (Effects c)
       (case Armor c of None \<Rightarrow> Defense (Stats c) | Some a \<Rightarrow> Defense (Stats c) + DefenseBonus a)"

definition EffectiveSpeed :: "Character \<Rightarrow> gint" where
  "EffectiveSpeed c = fold (\<lambda>e sp. sp + SpeedMod e) (Effects c) (Speed (Stats c))"

text \<open>The local variable \<^verbatim>\<open>actual\<close> of \<^verbatim>\<open>TakeDamage\<close>, after the floor at 1.\<close>

definition actualDamage :: "gint \<Rightarrow> DamageType \<Rightarrow> Character \<Rightarrow> gint" where
  "actualDamage amount dtype c =
     (let actual =
        (if dtype = Physical then amount - gdiv (EffectiveDefense c) 2
         else if dtype = Magic_type then amount - gdiv (Resist (Stats c)) 2
         else amount)
      in if actual <s 1 then 1 else actual)"

definition TakeDamage :: "gint \<Rightarrow> DamageType \<Rightarrow> Character \<Rightarrow> Character \<times> msg list" where
  "TakeDamage amount dtype c =
     (let hp = HP (Stats c) - actualDamage amount dtype c
      in if hp \<le>s 0
         then (c\<lparr>Stats := (Stats c)\<lparr>HP := 0\<rparr>, Alive := False\<rparr>, [MDied (Name c)])
         else (c\<lparr>Stats := (Stats c)\<lparr>HP := hp\<rparr>\<rparr>, []))"

definition Heal :: "gint \<Rightarrow> Character \<Rightarrow> Character" where
  "Heal amount c =
     (let hp = HP (Stats c) + amount
      in if HPMax (Stats c) <s hp
         then c\<lparr>Stats := (Stats c)\<lparr>HP := HPMax (Stats c)\<rparr>\<rparr>
         else c\<lparr>Stats := (Stats c)\<lparr>HP := hp\<rparr>\<rparr>)"

definition UseMP :: "gint \<Rightarrow> Character \<Rightarrow> bool \<times> Character" where
  "UseMP amount c =
     (if MP (Stats c) <s amount then (False, c)
      else (True, c\<lparr>Stats := (Stats c)\<lparr>MP := MP (Stats c) - amount\<rparr>\<rparr>))"

definition AddEffect :: "Effect \<Rightarrow> Character \<Rightarrow> Character \<times> msg list" where
  "AddEffect e c =
     (c\<lparr>Effects := Effects c @ [e]\<rparr>, [MGains (Name c) (EName e) (Duration e)])"

definition EquipWeapon :: "Weapon \<Rightarrow> Character \<Rightarrow> Character \<times> msg list" where
  "EquipWeapon w c = (c\<lparr>Weapon := Some w\<rparr>, [MEquipsWeapon (Name c) (WName w)])"

definition UnequipWeapon :: "Character \<Rightarrow> Character" where
  "UnequipWeapon c = c\<lparr>Weapon := None\<rparr>"

definition EquipArmor :: "Armor \<Rightarrow> Character \<Rightarrow> Character \<times> msg list" where
  "EquipArmor a c =
     ((if HPBonus a \<noteq> 0
       then c\<lparr>Armor := Some a,
              Stats := (Stats c)\<lparr>HPMax := HPMax (Stats c) + HPBonus a,
                                 HP := HP (Stats c) + HPBonus a\<rparr>\<rparr>
       else c\<lparr>Armor := Some a\<rparr>),
      [MEquipsArmor (Name c) (AName a)])"

definition UnequipArmor :: "Character \<Rightarrow> Character" where
  "UnequipArmor c =
     (case Armor c of
        None \<Rightarrow> c\<lparr>Armor := None\<rparr>
      | Some a \<Rightarrow>
          if HPBonus a \<noteq> 0
          then (let hpmax = HPMax (Stats c) - HPBonus a
                in if hpmax <s HP (Stats c)
                   then c\<lparr>Stats := (Stats c)\<lparr>HPMax := hpmax, HP := hpmax\<rparr>, Armor := None\<rparr>
                   else c\<lparr>Stats := (Stats c)\<lparr>HPMax := hpmax\<rparr>, Armor := None\<rparr>)
          else c\<lparr>Armor := None\<rparr>)"

text \<open>
  \<^verbatim>\<open>ApplyEffectsStartTurn\<close>: the sum of the non-zero \<^verbatim>\<open>DotHP\<close>, taken as pure damage when it
  is not zero; the death line of \<^verbatim>\<open>TakeDamage\<close> is logged before the DOT line.
\<close>

definition totalDot :: "Effect list \<Rightarrow> gint" where
  "totalDot es = fold (\<lambda>e t. if DotHP e \<noteq> 0 then t + DotHP e else t) es 0"

definition ApplyEffectsStartTurn :: "Character \<Rightarrow> Character \<times> msg list" where
  "ApplyEffectsStartTurn c =
     (let t = totalDot (Effects c)
      in if t \<noteq> 0
         then (let (c', ms) = TakeDamage t Pure c in (c', ms @ [MDot (Name c) t]))
         else (c, []))"

text \<open>
  \<^verbatim>\<open>ApplyEffectsEndTurn\<close>: every effect is ticked; the ticked copy is kept when its duration
  is still positive, and a line is logged for it otherwise.
\<close>

fun endTurnLoop :: "string \<Rightarrow> Effect list \<Rightarrow> Effect list \<times> msg list" where
  "endTurnLoop cname [] = ([], [])"
| "endTurnLoop cname (e # es) =
     (let e' = Tick e; (keep, ms) = endTurnLoop cname es
      in if 0 <s Duration e' then (e' # keep, ms)
         else (keep, MEffectEnded (EName e') cname # ms))"

definition ApplyEffectsEndTurn :: "Character \<Rightarrow> Character \<times> msg list" where
  "ApplyEffectsEndTurn c =
     (let (keep, ms) = endTurnLoop (Name c) (Effects c) in (c\<lparr>Effects := keep\<rparr>, ms))"

section \<open>The store, the random source and the log\<close>

text \<open>
  Rosters and target lists hold pointers to characters, and one character can be reached
  through several of them (an actor can be its own target), so characters live in a store
  and are named by address. A target that may be \<^verbatim>\<open>nil\<close> is an \<open>addr option\<close>.

  The environment holds what the battle takes from outside the repository:
  \<^item> \<open>sortSlice\<close> is \<^verbatim>\<open>sort.Slice\<close> of the standard library, given the order on the elements;
  \<^item> \<open>fmul n m\<close> is \<^verbatim>\<open>int(float64(n) * m)\<close>;
  \<^item> \<open>rnd\<close> is the stream of the global random source: draw number \<open>p\<close> gives
    \<^verbatim>\<open>rand.Float64()\<close> as its first component and \<^verbatim>\<open>rand.Intn(n)\<close> as its second
    component modulo \<open>n\<close>. Every call uses up one draw.
\<close>

type_synonym addr = nat

datatype error = NilDereference | IntnInvalidArgument

record env =
  sortSlice :: "(addr \<Rightarrow> addr \<Rightarrow> bool) \<Rightarrow> addr list \<Rightarrow> addr list"
  fmul :: "gint \<Rightarrow> real \<Rightarrow> gint"
  rnd :: "nat \<Rightarrow> real \<times> nat"

record world =
  heap :: "addr \<Rightarrow> Character"
  rpos :: nat
  out :: "msg list"

definition logf :: "msg list \<Rightarrow> world \<Rightarrow> world" where
  "logf ms w = w\<lparr>out := out w @ ms\<rparr>"

definition on_char :: "addr \<Rightarrow> (Character \<Rightarrow> Character \<times> msg list) \<Rightarrow> world \<Rightarrow> world" where
  "on_char a f w =
     (let (c', ms) = f (heap w a) in w\<lparr>heap := (heap w)(a := c'), out := out w @ ms\<rparr>)"

definition Float64 :: "env \<Rightarrow> world \<Rightarrow> real \<times> world" where
  "Float64 E w = (fst (rnd E (rpos w)), w\<lparr>rpos := Suc (rpos w)\<rparr>)"

text \<open>\<^verbatim>\<open>rand.Intn(n)\<close> panics when \<open>n \<le> 0\<close>.\<close>

definition Intn :: "env \<Rightarrow> gint \<Rightarrow> world \<Rightarrow> error + gint \<times> world" where
  "Intn E n w =
     (if n \<le>s 0 then Inl IntnInvalidArgument
      else Inr (word_of_nat (snd (rnd E (rpos w)) mod nat (sint n)), w\<lparr>rpos := Suc (rpos w)\<rparr>))"

section \<open>Attacks and skills\<close>

text \<open>
  The roll for a critical hit, as \<^verbatim>\<open>BasicAttack\<close> and \<^verbatim>\<open>UseSkillAt\<close> both make it: one
  draw; below the actor's \<^verbatim>\<open>CritRate\<close> the amount is multiplied by its \<^verbatim>\<open>CritMult\<close> and
  the line is logged.
\<close>

definition critRoll :: "env \<Rightarrow> addr \<Rightarrow> gint \<Rightarrow> msg \<Rightarrow> world \<Rightarrow> gint \<times> world" where
  "critRoll E c amount line w =
     (let (f, w') = Float64 E w
      in if f < CritRate (Stats (heap w' c))
         then (fmul E amount (CritMult (Stats (heap w' c))), logf [line] w')
         else (amount, w'))"

text \<open>
  Lines 282 to 287 of \<^verbatim>\<open>BasicAttack\<close>: the damage range and type of the weapon, or of
  the bare hands.
\<close>

definition weaponProfile :: "Character \<Rightarrow> gint \<times> gint \<times> DamageType" where
  "weaponProfile c =
     (case Weapon c of
        None \<Rightarrow> (1, 2, Physical)
      | Some wp \<Rightarrow> (DamageMin wp, DamageMax wp, WDamageType wp))"

definition BasicAttack :: "env \<Rightarrow> addr \<Rightarrow> addr option \<Rightarrow> world \<Rightarrow> error + world" where
  "BasicAttack E c target w =
     (if \<not> Alive (heap w c) then Inr w
      else
        let (dmin, dmax, dtype) = weaponProfile (heap w c)
        in case Intn E (dmax - dmin + 1) w of
             Inl e \<Rightarrow> Inl e
           | Inr (r, w1) \<Rightarrow>
               let (base, w2) =
                     critRoll E c (r + dmin + EffectiveAttack (heap w1 c))
                       (MCrit (Name (heap w1 c))) w1
               in case target of
                    None \<Rightarrow> Inl NilDereference
                  | Some t \<Rightarrow>
                      Inr (on_char t (TakeDamage base dtype)
                             (logf [MAttacks (Name (heap w2 c)) (Name (heap w2 t)) base dtype] w2)))"

text \<open>
  Lines 314 to 317 of \<^verbatim>\<open>UseSkillAt\<close>: the power of a skill before the jitter, from the
  caster's effective attack, or from its \<^verbatim>\<open>Magic\<close> for a magic skill.
\<close>

definition skillPower :: "env \<Rightarrow> Skill \<Rightarrow> Character \<Rightarrow> gint" where
  "skillPower E s c =
     (let power = fmul E (EffectiveAttack c) (DamageMultiplier s)
      in if DamageType s = Magic_type then fmul E (Magic (Stats c)) (DamageMultiplier s)
         else power)"

text \<open>The body of the damage loop of \<^verbatim>\<open>UseSkillAt\<close>, for a target \<open>t\<close> that is alive.\<close>

definition skillHit :: "env \<Rightarrow> addr \<Rightarrow> Skill \<Rightarrow> addr \<Rightarrow> world \<Rightarrow> error + world" where
  "skillHit E c s t w =
     (let power1 = skillPower E s (heap w c)
      in case Intn E 3 w of
           Inl e \<Rightarrow> Inl e
         | Inr (r, w1) \<Rightarrow>
             let (power, w2) =
                   critRoll E c (power1 + (r - 1)) (MSkillCrit (Name (heap w1 c))) w1;
                 w3 = logf [MDeals (Name (heap w2 c)) power (Name (heap w2 t)) (SName s)] w2;
                 w4 = on_char t (TakeDamage power (DamageType s)) w3
             in Inr (case SEffect s of
                       None \<Rightarrow> w4
                     | Some e \<Rightarrow> on_char t (AddEffect e) w4))"

fun skillDamageLoop :: "env \<Rightarrow> addr \<Rightarrow> Skill \<Rightarrow> addr option list \<Rightarrow> world \<Rightarrow> error + world" where
  "skillDamageLoop E c s [] w = Inr w"
| "skillDamageLoop E c s (None # ts) w = Inl NilDereference"
| "skillDamageLoop E c s (Some t # ts) w =
     (if \<not> Alive (heap w t) then skillDamageLoop E c s ts w
      else case skillHit E c s t w of
             Inl e \<Rightarrow> Inl e
           | Inr w' \<Rightarrow> skillDamageLoop E c s ts w')"

text \<open>The body of the heal loop of \<^verbatim>\<open>UseSkillAt\<close>, for a target \<open>t\<close> that is alive.\<close>

definition skillHeal :: "addr \<Rightarrow> Skill \<Rightarrow> addr \<Rightarrow> world \<Rightarrow> world" where
  "skillHeal c s t w =
     (let w1 = on_char t (\<lambda>x. (Heal (HealHP s) x, [])) w;
          w2 = logf [MHeals (Name (heap w1 c)) (Name (heap w1 t)) (HealHP s)] w1
      in case SEffect s of
           None \<Rightarrow> w2
         | Some e \<Rightarrow> on_char t (AddEffect e) w2)"

fun skillHealLoop :: "addr \<Rightarrow> Skill \<Rightarrow> addr option list \<Rightarrow> world \<Rightarrow> error + world" where
  "skillHealLoop c s [] w = Inr w"
| "skillHealLoop c s (None # ts) w = Inl NilDereference"
| "skillHealLoop c s (Some t # ts) w =
     (if \<not> Alive (heap w t) then skillHealLoop c s ts w
      else skillHealLoop c s ts (skillHeal c s t w))"

text \<open>Lines 308 to 342 of \<^verbatim>\<open>UseSkillAt\<close>: the damage loop, then the heal loop.\<close>

definition castSkill :: "env \<Rightarrow> addr \<Rightarrow> Skill \<Rightarrow> addr option list \<Rightarrow> world \<Rightarrow> error + world" where
  "castSkill E c s targets w =
     (case (if 0 < DamageMultiplier s then skillDamageLoop E c s targets w else Inr w) of
        Inl e \<Rightarrow> Inl e
      | Inr w' \<Rightarrow> if 0 <s HealHP s then skillHealLoop c s targets w' else Inr w')"

definition UseSkillAt :: "env \<Rightarrow> addr \<Rightarrow> gint \<Rightarrow> addr option list \<Rightarrow> world \<Rightarrow> error + world" where
  "UseSkillAt E c idx targets w =
     (if idx <s 0 \<or> word_of_nat (length (Skills (heap w c))) \<le>s idx
      then Inr (logf [MInvalidSkill (Name (heap w c))] w)
      else
        let s = Skills (heap w c) ! nat (sint idx);
            (ok, c') = UseMP (MPCost s) (heap w c)
        in if \<not> ok then Inr (logf [MLacksMP (Name (heap w c)) (SName s)] w)
           else castSkill E c s targets
                  (logf [MUses (Name c') (SName s)] (w\<lparr>heap := (heap w)(c := c')\<rparr>)))"

section \<open>The battle\<close>

fun chooseFirstAlive :: "(addr \<Rightarrow> Character) \<Rightarrow> addr list \<Rightarrow> addr option" where
  "chooseFirstAlive h [] = None"
| "chooseFirstAlive h (c # cs) = (if Alive (h c) then Some c else chooseFirstAlive h cs)"

text \<open>
  \<^verbatim>\<open>Battle\<close>. The rosters hold the addresses of their characters (non-nil pointers, as
  \<^verbatim>\<open>NewCharacter\<close> returns them).
\<close>

record Battle =
  Players :: "addr list"
  Enemies :: "addr list"
  Round :: gint

definition NewBattle :: "addr list \<Rightarrow> addr list \<Rightarrow> Battle" where
  "NewBattle players enemies = \<lparr>Players = players, Enemies = enemies, Round = 0\<rparr>"

fun noneAlive :: "(addr \<Rightarrow> Character) \<Rightarrow> addr list \<Rightarrow> bool" where
  "noneAlive h [] = True"
| "noneAlive h (c # cs) = (if Alive (h c) then False else noneAlive h cs)"

definition AllDead :: "Battle \<Rightarrow> string \<Rightarrow> (addr \<Rightarrow> Character) \<Rightarrow> bool" where
  "AllDead b team h = noneAlive h (if team = ''player'' then Players b else Enemies b)"

text \<open>Lines 419 to 425 of \<^verbatim>\<open>Turn\<close>: the targets of the skill \<open>s\<close> chosen by \<open>actor\<close>.\<close>

definition skillTargets ::
  "(addr \<Rightarrow> Character) \<Rightarrow> addr \<Rightarrow> Skill \<Rightarrow> addr list \<Rightarrow> addr option list" where
  "skillTargets h actor s targets =
     (let targ0 = [chooseFirstAlive h targets];
          targ1 = (if 0 <s HealHP s \<or>
                      (HP (Stats (h actor)) <s gdiv (HPMax (Stats (h actor))) 2 \<and>
                       Team (h actor) \<noteq> ''player'')
                   then [Some actor] else targ0)
      in if TargetAll s then map Some targets else targ1)"

text \<open>
  Lines 412 to 430 of \<^verbatim>\<open>Turn\<close>: the attempt to use a random skill; the boolean is
  \<^verbatim>\<open>usedAction\<close>.
\<close>

definition skillAction :: "env \<Rightarrow> addr \<Rightarrow> addr list \<Rightarrow> world \<Rightarrow> error + bool \<times> world" where
  "skillAction E actor targets w =
     (if 0 < length (Skills (heap w actor))
      then
        let (f, w1) = Float64 E w
        in if f < 0.5
           then case Intn E (word_of_nat (length (Skills (heap w1 actor)))) w1 of
                  Inl e \<Rightarrow> Inl e
                | Inr (skillIdx, w2) \<Rightarrow>
                    let s = Skills (heap w2 actor) ! nat (sint skillIdx)
                    in if MPCost s \<le>s MP (Stats (heap w2 actor))
                       then case UseSkillAt E actor skillIdx
                                   (skillTargets (heap w2) actor s targets) w2 of
                              Inl e \<Rightarrow> Inl e
                            | Inr w3 \<Rightarrow> Inr (True, w3)
                       else Inr (False, w2)
           else Inr (False, w1)
      else Inr (False, w))"

text \<open>Lines 432 to 439 of \<^verbatim>\<open>Turn\<close>: the basic attack on the first living target.\<close>

definition basicAction :: "env \<Rightarrow> addr \<Rightarrow> addr list \<Rightarrow> world \<Rightarrow> error + world" where
  "basicAction E actor targets w =
     (case chooseFirstAlive (heap w) targets of
        None \<Rightarrow> Inr w
      | Some t \<Rightarrow> BasicAttack E actor (Some t) w)"

text \<open>One pass of the body of the loop over the actors, for an actor that is alive.\<close>

definition actorTurn :: "env \<Rightarrow> Battle \<Rightarrow> addr \<Rightarrow> world \<Rightarrow> error + world" where
  "actorTurn E b actor w =
     (let w1 = logf [MThinking (Name (heap w actor))] w;
          w2 = on_char actor ApplyEffectsStartTurn w1;
          targets = (if Team (heap w2 actor) = ''player'' then Enemies b else Players b)
      in case skillAction E actor targets w2 of
           Inl e \<Rightarrow> Inl e
         | Inr (usedAction, w3) \<Rightarrow>
             case (if \<not> usedAction then basicAction E actor targets w3 else Inr w3) of
               Inl e \<Rightarrow> Inl e
             | Inr w4 \<Rightarrow> Inr (on_char actor ApplyEffectsEndTurn w4))"

fun turnLoop :: "env \<Rightarrow> Battle \<Rightarrow> addr list \<Rightarrow> world \<Rightarrow> error + world" where
  "turnLoop E b [] w = Inr w"
| "turnLoop E b (actor # rest) w =
     (if \<not> Alive (heap w actor) then turnLoop E b rest w
      else case actorTurn E b actor w of
             Inl e \<Rightarrow> Inl e
           | Inr w' \<Rightarrow>
               if AllDead b ''player'' (heap w') \<or> AllDead b ''enemy'' (heap w') then Inr w'
               else turnLoop E b rest w')"

definition turnOrder :: "env \<Rightarrow> Battle \<Rightarrow> (addr \<Rightarrow> Character) \<Rightarrow> addr list" where
  "turnOrder E b h =
     sortSlice E (\<lambda>x y. EffectiveSpeed (h y) <s EffectiveSpeed (h x)) (Players b @ Enemies b)"

definition Turn :: "env \<Rightarrow> Battle \<Rightarrow> world \<Rightarrow> error + Battle \<times> world" where
  "Turn E b w =
     (let b' = b\<lparr>Round := Round b + 1\<rparr>;
          w1 = logf [MRound (Round b')] w
      in case turnLoop E b' (turnOrder E b' (heap w1)) w1 of
           Inl e \<Rightarrow> Inl e
         | Inr w2 \<Rightarrow> Inr (b', w2))"

text \<open>
  \<^verbatim>\<open>Run\<close>. The loop may run for ever, so it takes fuel: the number of rounds it may still
  play. \<open>None\<close> says that the fuel ran out with the battle still going on; \<open>Some (Inl e)\<close>
  is a panic, and \<open>Some (Inr (b, w))\<close> the end of the battle, the winner's line being the
  last line of the log.
\<close>

definition winnerLine :: "Battle \<Rightarrow> (addr \<Rightarrow> Character) \<Rightarrow> msg" where
  "winnerLine b h = (if AllDead b ''enemy'' h then MPlayersWin else MEnemiesWin)"

fun Run :: "env \<Rightarrow> nat \<Rightarrow> Battle \<Rightarrow> world \<Rightarrow> (error + Battle \<times> world) option" where
  "Run E 0 b w =
     (if \<not> AllDead b ''player'' (heap w) \<and> \<not> AllDead b ''enemy'' (heap w)
      then None
      else Some (Inr (b, logf [winnerLine b (heap w)] w)))"
| "Run E (Suc n) b w =
     (if \<not> AllDead b ''player'' (heap w) \<and> \<not> AllDead b ''enemy'' (heap w)
      then (case Turn E b w of
              Inl e \<Rightarrow> Some (Inl e)
            | Inr (b', w') \<Rightarrow> Run E n b' w')
      else Some (Inr (b, logf [winnerLine b (heap w)] w)))"

text \<open>
  What a finished battle shows: whether the player roster is defeated, whether the enemy
  roster is defeated, and the last line of the log.
\<close>

definition battleOutcome :: "(error + Battle \<times> world) option \<Rightarrow> (bool \<times> bool \<times> msg) option" where
  "battleOutcome r =
     (case r of
        Some (Inr (b, w)) \<Rightarrow>
          Some (AllDead b ''player'' (heap w), AllDead b ''enemy'' (heap w), last (out w))
      | _ \<Rightarrow> None)"

section \<open>Notions used by the properties\<close>

text \<open>\<open>endTurns n c\<close>: the character after \<open>n\<close> calls of \<^verbatim>\<open>ApplyEffectsEndTurn\<close>.\<close>

primrec endTurns :: "nat \<Rightarrow> Character \<Rightarrow> Character" where
  "endTurns 0 c = c"
| "endTurns (Suc n) c = fst (ApplyEffectsEndTurn (endTurns n c))"

text \<open>The effects of a list whose duration is larger than \<open>n\<close> (all of them for \<open>n = 0\<close>).\<close>

definition lasting :: "nat \<Rightarrow> Effect list \<Rightarrow> Effect list" where
  "lasting n es = filter (\<lambda>e. n = 0 \<or> int n < sint (Duration e)) es"

text \<open>
  The insertion sort: each element is moved towards the front past the elements it is
  strictly less than, so elements that are not less than one another keep their input
  order.
\<close>

fun insertBack :: "('a \<Rightarrow> 'a \<Rightarrow> bool) \<Rightarrow> 'a \<Rightarrow> 'a list \<Rightarrow> 'a list" where
  "insertBack lt x [] = [x]"
| "insertBack lt x (y # ys) = (if lt x y then y # insertBack lt x ys else x # y # ys)"

definition insertionSort :: "('a \<Rightarrow> 'a \<Rightarrow> bool) \<Rightarrow> 'a list \<Rightarrow> 'a list" where
  "insertionSort lt xs = rev (fold (insertBack lt) xs [])"

text \<open>
  The environment's \<open>fmul\<close> as IEEE 754 binary64 arithmetic computes it. \<open>float64 v\<close> is
  the \<^verbatim>\<open>float64\<close> nearest to the real \<open>v\<close> (ties to the even significand; 53 bits of
  significand, the least exponent \<open>- 1022\<close>; overflow to infinity is left out, the values
  of a battle are far from it). \<open>fmul64 n m\<close> is \<^verbatim>\<open>int(float64(n) * m)\<close>: both operands
  as \<^verbatim>\<open>float64\<close> (which changes nothing when they are already), their product rounded to
  \<^verbatim>\<open>float64\<close>, and the conversion to \<^verbatim>\<open>int\<close>, which drops the fraction. A decimal constant
  of the source, such as \<^verbatim>\<open>1.7\<close>, is \<open>float64 (17 / 10)\<close>.
\<close>

fun bitLen :: "nat \<Rightarrow> nat" where
  "bitLen n = (if n = 0 then 0 else Suc (bitLen (n div 2)))"

declare bitLen.simps [simp del]

definition floorLog2 :: "real \<Rightarrow> int" where
  "floorLog2 v =
     (if 1 \<le> v then int (bitLen (nat \<lfloor>v\<rfloor>)) - 1
      else - int (bitLen (nat (\<lceil>1 / v\<rceil> - 1))))"

definition pow2 :: "int \<Rightarrow> real" where
  "pow2 e = (if 0 \<le> e then 2 ^ nat e else 1 / 2 ^ nat (- e))"

definition roundToEven :: "real \<Rightarrow> int" where
  "roundToEven r =
     (let f = \<lfloor>r\<rfloor>; d = r - of_int f
      in if d < 1 / 2 then f else if 1 / 2 < d then f + 1 else if even f then f else f + 1)"

definition float64 :: "real \<Rightarrow> real" where
  "float64 v =
     (if v = 0 then 0
      else let u = pow2 (max (floorLog2 \<bar>v\<bar>) (- 1022) - 52)
           in of_int (roundToEven (v / u)) * u)"

definition fmul64 :: "gint \<Rightarrow> real \<Rightarrow> gint" where
  "fmul64 n m =
     (let y = float64 (float64 (of_int (sint n)) * float64 m)
      in word_of_int (if 0 \<le> y then \<lfloor>y\<rfloor> else \<lceil>y\<rceil>))"

section \<open>Example characters and battles\<close>

text \<open>The hero of \<^verbatim>\<open>setupBattle\<close> (names in ASCII), his sword and his armor.\<close>

definition heroStats :: Stats where
  "heroStats = \<lparr>HPMax = 60, HP = 0, MPMax = 30, MP = 0, Attack = 6, Defense = 3, Magic = 4,
     Resist = 2, Speed = 7, CritRate = float64 (12 / 100),
     CritMult = float64 (17 / 10)\<rparr>"

definition hero :: Character where
  "hero = NewCharacter ''p1'' ''Hero'' ''player'' heroStats"

definition leatherArmor :: Armor where
  "leatherArmor = \<lparr>AName = ''Leather armor'', DefenseBonus = 1, ResistBonus = 0, HPBonus = 5\<rparr>"

definition woundedHero :: Character where
  "woundedHero = hero\<lparr>Stats := (Stats hero)\<lparr>HP := 10\<rparr>\<rparr>"

text \<open>An attacker with attack 6 and a weapon of range 3 to 6, and a target with defense 3.\<close>

definition plainSword :: Weapon where
  "plainSword = \<lparr>WName = ''Sword'', DamageMin = 3, DamageMax = 6, WDamageType = Physical,
     AttackBonus = 0, MagicBonus = 0\<rparr>"

definition swordsman :: Character where
  "swordsman = hero\<lparr>Weapon := Some plainSword\<rparr>"

definition orcStats :: Stats where
  "orcStats = \<lparr>HPMax = 35, HP = 0, MPMax = 0, MP = 0, Attack = 8, Defense = 3, Magic = 0,
     Resist = 1, Speed = 4, CritRate = float64 (8 / 100),
     CritMult = float64 (14 / 10)\<rparr>"

definition orc :: Character where
  "orc = NewCharacter ''e3'' ''Orc'' ''enemy'' orcStats"

definition duelWorld :: world where
  "duelWorld = \<lparr>heap = (\<lambda>_. orc)(0 := swordsman, 1 := orc), rpos = 0, out = []\<rparr>"

definition highRolls :: env where
  "highRolls = \<lparr>sortSlice = insertionSort, fmul = fmul64, rnd = (\<lambda>p. (7 / 8, 2))\<rparr>"

text \<open>A caster with 5 MP and a skill that costs 8.\<close>

definition fireball :: Skill where
  "fireball = \<lparr>SID = ''s1'', SName = ''Fireball'', Description = ''Deals magic damage'',
     MPCost = 8, DamageMultiplier = float64 (22 / 10), DamageType = Magic_type, HealHP = 0,
     TargetAll = False, SEffect = None\<rparr>"

definition tiredMage :: Character where
  "tiredMage = hero\<lparr>Stats := (Stats hero)\<lparr>MP := 5\<rparr>, Skills := [fireball]\<rparr>"

definition mageWorld :: world where
  "mageWorld = \<lparr>heap = (\<lambda>_. orc)(0 := tiredMage, 1 := orc), rpos = 0, out = []\<rparr>"

text \<open>A character under two effects, of durations 2 and 3.\<close>

definition weaken :: Effect where
  "weaken = \<lparr>EID = ''weak'', EName = ''Weakness'', Duration = 2, AtkMod = - 2, DefMod = 0,
     SpeedMod = 0, DotHP = 0, From = ''e1''\<rparr>"

definition haste :: Effect where
  "haste = \<lparr>EID = ''haste'', EName = ''Haste'', Duration = 3, AtkMod = 0, DefMod = 0,
     SpeedMod = 4, DotHP = 0, From = ''p2''\<rparr>"

definition affectedHero :: Character where
  "affectedHero = hero\<lparr>Effects := [weaken, haste]\<rparr>"

text \<open>
  A battle of one player against one enemy, each with 1 HP. The player is poisoned, is the
  faster one, and has a skill that costs nothing; the random source makes him use it.
\<close>

definition plainStats :: Stats where
  "plainStats = \<lparr>HPMax = 10, HP = 1, MPMax = 0, MP = 0, Attack = 5, Defense = 0, Magic = 0,
     Resist = 0, Speed = 5, CritRate = 0, CritMult = 1\<rparr>"

definition poison :: Effect where
  "poison = \<lparr>EID = ''poison'', EName = ''Poison'', Duration = 3, AtkMod = 0, DefMod = 0,
     SpeedMod = 0, DotHP = 1, From = ''e1''\<rparr>"

definition strike :: Skill where
  "strike = \<lparr>SID = ''s2'', SName = ''Strike'', Description = [], MPCost = 0,
     DamageMultiplier = 1, DamageType = Pure, HealHP = 0, TargetAll = False, SEffect = None\<rparr>"

definition poisonedPlayer :: Character where
  "poisonedPlayer = \<lparr>ID = ''p1'', Name = ''Hero'', Stats = plainStats\<lparr>Speed := 7\<rparr>,
     Weapon = None, Armor = None, Skills = [strike], Effects = [poison], Alive = True,
     Team = ''player''\<rparr>"

definition weakEnemy :: Character where
  "weakEnemy = \<lparr>ID = ''e1'', Name = ''Goblin'', Stats = plainStats,
     Weapon = None, Armor = None, Skills = [], Effects = [], Alive = True, Team = ''enemy''\<rparr>"

definition mutualWorld :: world where
  "mutualWorld =
     \<lparr>heap = (\<lambda>_. weakEnemy)(0 := poisonedPlayer, 1 := weakEnemy), rpos = 0, out = []\<rparr>"

definition mutualBattle :: Battle where
  "mutualBattle = NewBattle [0] [1]"

definition lowRolls :: env where
  "lowRolls = \<lparr>sortSlice = insertionSort, fmul = fmul64, rnd = (\<lambda>p. (1 / 4, 0))\<rparr>"

text \<open>Whether the character at an address is alive when the battle has ended.\<close>

definition aliveAfter :: "(error + Battle \<times> world) option \<Rightarrow> addr \<Rightarrow> bool option" where
  "aliveAfter r a =
     (case r of
        Some (Inr (b, w)) \<Rightarrow> Some (Alive (heap w a))
      | _ \<Rightarrow> None)"

text \<open>
  The battle of the poisoned player with a second enemy, who is dead from the start.
\<close>

definition deadEnemy :: Character where
  "deadEnemy = weakEnemy\<lparr>ID := ''e2'', Stats := plainStats\<lparr>HP := 0\<rparr>, Alive := False\<rparr>"

definition graveWorld :: world where
  "graveWorld =
     \<lparr>heap = (\<lambda>_. weakEnemy)(0 := poisonedPlayer, 1 := weakEnemy, 2 := deadEnemy),
      rpos = 0, out = []\<rparr>"

definition graveBattle :: Battle where
  "graveBattle = NewBattle [0] [1, 2]"

text \<open>
  A duel of one player against one enemy, each with 1 HP and no skill; the enemy is the
  faster one.
\<close>

definition weakPlayer :: Character where
  "weakPlayer = \<lparr>ID = ''p1'', Name = ''Hero'', Stats = plainStats,
     Weapon = None, Armor = None, Skills = [], Effects = [], Alive = True,
     Team = ''player''\<rparr>"

definition fastEnemy :: Character where
  "fastEnemy = weakEnemy\<lparr>Stats := plainStats\<lparr>Speed := 9\<rparr>\<rparr>"

definition quickDuelWorld :: world where
  "quickDuelWorld =
     \<lparr>heap = (\<lambda>_. weakEnemy)(0 := weakPlayer, 1 := fastEnemy), rpos = 0, out = []\<rparr>"

definition quickDuel :: Battle where
  "quickDuel = NewBattle [0] [1]"

text \<open>
  A goblin shaman with 3 of 20 HP and a damage skill that heals nothing, against the hero;
  the shaman is the faster one, and the random source makes it use its skill.
\<close>

definition bolt :: Skill where
  "bolt = \<lparr>SID = ''s3'', SName = ''Bolt'', Description = ''Deals magic damage'', MPCost = 2,
     DamageMultiplier = 1, DamageType = Magic_type, HealHP = 0, TargetAll = False,
     SEffect = None\<rparr>"

definition shamanStats :: Stats where
  "shamanStats = \<lparr>HPMax = 20, HP = 3, MPMax = 10, MP = 10, Attack = 2, Defense = 1, Magic = 4,
     Resist = 0, Speed = 9, CritRate = 0, CritMult = 1\<rparr>"

definition shaman :: Character where
  "shaman = \<lparr>ID = ''e1'', Name = ''Shaman'', Stats = shamanStats, Weapon = None, Armor = None,
     Skills = [bolt], Effects = [], Alive = True, Team = ''enemy''\<rparr>"

definition shamanWorld :: world where
  "shamanWorld = \<lparr>heap = (\<lambda>_. hero)(0 := hero, 1 := shaman), rpos = 0, out = []\<rparr>"

definition shamanBattle :: Battle where
  "shamanBattle = NewBattle [0] [1]"

text \<open>The HP of the character at an address when the battle has ended.\<close>

definition hpAfter :: "(error + Battle \<times> world) option \<Rightarrow> addr \<Rightarrow> gint option" where
  "hpAfter r a =
     (case r of
        Some (Inr (b, w)) \<Rightarrow> Some (HP (Stats (heap w a)))
      | _ \<Rightarrow> None)"

text \<open>
  What the documentation of \<^verbatim>\<open>sort.Slice\<close> promises, for the orders that \<^verbatim>\<open>Turn\<close> sorts by
  (a larger key first): the result is a rearrangement of the input in which no element
  comes after an element of a smaller key. It does not promise to keep the input order of
  elements of equal keys (\<^verbatim>\<open>sort.SliceStable\<close> does).
\<close>

definition sortsDescending :: "((addr \<Rightarrow> addr \<Rightarrow> bool) \<Rightarrow> addr list \<Rightarrow> addr list) \<Rightarrow> bool" where
  "sortsDescending srt =
     (\<forall>(key :: addr \<Rightarrow> gint) xs.
        mset (srt (\<lambda>x y. key y <s key x) xs) = mset xs \<and>
        sorted_wrt (\<lambda>x y. key y \<le>s key x) (srt (\<lambda>x y. key y <s key x) xs))"

text \<open>Four characters of speeds 7, 5, 4 and 6, two on each side.\<close>

definition runner :: "gint \<Rightarrow> string \<Rightarrow> Character" where
  "runner sp team = NewCharacter ''r'' ''Runner'' team (plainStats\<lparr>Speed := sp\<rparr>)"

definition raceHeap :: "addr \<Rightarrow> Character" where
  "raceHeap = (\<lambda>_. weakEnemy)(10 := runner 7 ''player'', 11 := runner 5 ''player'',
     12 := runner 4 ''enemy'', 13 := runner 6 ''enemy'')"

definition raceBattle :: Battle where
  "raceBattle = NewBattle [10, 11] [12, 13]"

text \<open>One player and one enemy of the same speed.\<close>

definition tieHeap :: "addr \<Rightarrow> Character" where
  "tieHeap = (\<lambda>_. weakEnemy)(10 := runner 5 ''player'', 11 := runner 5 ''enemy'')"

definition tieBattle :: Battle where
  "tieBattle = NewBattle [10] [11]"

text \<open>
  A character, and a world, with the two fields \<^verbatim>\<open>MagicBonus\<close> (of the weapon) and
  \<^verbatim>\<open>ResistBonus\<close> (of the armor) set to 0: two worlds differ in these two fields only when
  they are the same world after \<open>scrubW\<close>.
\<close>

definition scrubC :: "Character \<Rightarrow> Character" where
  "scrubC c =
     c\<lparr>Weapon := map_option (\<lambda>w. w\<lparr>MagicBonus := 0\<rparr>) (Weapon c),
       Armor := map_option (\<lambda>a. a\<lparr>ResistBonus := 0\<rparr>) (Armor c)\<rparr>"

definition scrubW :: "world \<Rightarrow> world" where
  "scrubW w = w\<lparr>heap := scrubC \<circ> heap w\<rparr>"

definition scrubR :: "(error + Battle \<times> world) option \<Rightarrow> (error + Battle \<times> world) option" where
  "scrubR r = map_option (map_sum id (apsnd scrubW)) r"

text \<open>The log of a battle that has ended.\<close>

definition logAfter :: "(error + Battle \<times> world) option \<Rightarrow> msg list option" where
  "logAfter r =
     (case r of
        Some (Inr (b, w)) \<Rightarrow> Some (out w)
      | _ \<Rightarrow> None)"

text \<open>
  A mage with a staff against an orc in armor, twice: the two worlds differ in the
  \<^verbatim>\<open>MagicBonus\<close> of the staff and in the \<^verbatim>\<open>ResistBonus\<close> of the armor only.
\<close>

definition staff :: Weapon where
  "staff = \<lparr>WName = ''Staff'', DamageMin = 1, DamageMax = 3, WDamageType = Magic_type,
     AttackBonus = 0, MagicBonus = 1\<rparr>"

definition mage :: Character where
  "mage = hero\<lparr>Skills := [fireball], Weapon := Some staff\<rparr>"

definition armoredOrc :: Character where
  "armoredOrc = orc\<lparr>Armor := Some (leatherArmor\<lparr>ResistBonus := 5\<rparr>)\<rparr>"

definition bonusWorld :: world where
  "bonusWorld = \<lparr>heap = (\<lambda>_. orc)(0 := mage, 1 := armoredOrc), rpos = 0, out = []\<rparr>"

definition plainWorld :: world where
  "plainWorld =
     \<lparr>heap = (\<lambda>_. orc)(0 := mage\<lparr>Weapon := Some (staff\<lparr>MagicBonus := 9\<rparr>)\<rparr>,
                       1 := orc\<lparr>Armor := Some leatherArmor\<rparr>),
      rpos = 0, out = []\<rparr>"

definition mageBattle :: Battle where
  "mageBattle = NewBattle [0] [1]"






text \<open>
  The battles that are shown to end. A character is fit when its HP is between 0 and its
  maximum HP, the maximum is below \<open>2 ^ 62\<close>, and each of its skills costs at least 1 MP
  and heals less than \<open>2 ^ 62\<close> HP (so that no sum of HP overflows); a battle is fit when
  the characters of both rosters are.
\<close>

definition fitSkill :: "Skill \<Rightarrow> bool" where
  "fitSkill s = (1 \<le>s MPCost s \<and> sint (HealHP s) < 2 ^ 62)"

definition fit :: "Character \<Rightarrow> bool" where
  "fit c =
     (0 \<le>s HP (Stats c) \<and> HP (Stats c) \<le>s HPMax (Stats c) \<and> sint (HPMax (Stats c)) < 2 ^ 62 \<and>
      list_all fitSkill (Skills c))"


text \<open>
  What decreases from round to round: first the MP of the characters of a set of
  addresses, then their HP (a living character counting for one more than its HP).
\<close>

definition mpOf :: "Character \<Rightarrow> nat" where
  "mpOf c = nat (sint (MP (Stats c)))"

definition hpOf :: "Character \<Rightarrow> nat" where
  "hpOf c = (if Alive c then Suc (nat (sint (HP (Stats c)))) else 0)"

definition battleMeasure :: "addr set \<Rightarrow> (addr \<Rightarrow> Character) \<Rightarrow> nat \<times> nat" where
  "battleMeasure R h = (\<Sum>a\<in>R. mpOf (h a), \<Sum>a\<in>R. hpOf (h a))"



section \<open>Arithmetic of 64-bit integers\<close>

lemma sint_bounds: "- (2 ^ 63) \<le> sint (a::gint)" "sint (a::gint) < 2 ^ 63"
  using sint_ge [of a] sint_lt [of a] by simp_all

lemma sint_sub_exact:
  "- (2 ^ 63) \<le> sint (a::gint) - sint b \<Longrightarrow> sint a - sint b < 2 ^ 63 \<Longrightarrow>
   sint (a - b) = sint a - sint b"
  by (simp add: sint_word_ariths signed_take_bit_int_eq_self)

lemma sint_add_exact:
  "- (2 ^ 63) \<le> sint (a::gint) + sint b \<Longrightarrow> sint a + sint b < 2 ^ 63 \<Longrightarrow>
   sint (a + b) = sint a + sint b"
  by (simp add: sint_word_ariths signed_take_bit_int_eq_self)

lemma sint_eq0: "(sint (x::gint) = 0) = (x = 0)"
  by (metis sint_0 signed_word_eqI)

lemma sint_dec:
  assumes "- (2 ^ 63) < sint (d::gint)"
  shows "sint (d - 1) = sint d - 1"
  using assms sint_bounds [of d] by (intro sint_sub_exact [of d 1, simplified]) simp_all

lemma sint_of_nat_small:
  assumes "int n < 2 ^ 63"
  shows "sint (of_nat n :: gint) = int n"
  using assms by (simp add: signed_of_nat signed_take_bit_int_eq_self)

section \<open>Armor and maximum HP\<close>

lemma round_trip_hp:
  "HP (Stats (UnequipArmor (fst (EquipArmor a c)))) =
     (if HPBonus a \<noteq> 0 \<and> HPMax (Stats c) <s HP (Stats c) + HPBonus a
      then HPMax (Stats c) else HP (Stats c) + HPBonus a)"
  by (simp add: EquipArmor_def UnequipArmor_def Let_def)

lemma round_trip_full:
  assumes "HP (Stats c) = HPMax (Stats c)" "0 \<le>s HPBonus a"
    and "sint (HPMax (Stats c)) + sint (HPBonus a) < 2 ^ 63"
  shows "HP (Stats (UnequipArmor (fst (EquipArmor a c)))) = HP (Stats c)"
proof (cases "HPBonus a = 0")
  case True
  then show ?thesis by (simp add: round_trip_hp)
next
  case False
  have n0: "0 \<le> sint (HPBonus a)"
    using assms(2) by (simp add: word_sle_eq)
  then have npos: "0 < sint (HPBonus a)"
    using False sint_eq0 [of "HPBonus a"] by simp
  have "sint (HPMax (Stats c) + HPBonus a) = sint (HPMax (Stats c)) + sint (HPBonus a)"
    using assms(3) n0 sint_bounds [of "HPMax (Stats c)"] by (intro sint_add_exact) linarith+
  then have "HPMax (Stats c) <s HPMax (Stats c) + HPBonus a"
    using npos by (simp add: word_sless_alt)
  then show ?thesis
    using False assms(1) by (simp add: round_trip_hp)
qed

text \<open>
  Claim C4, as the code has it. Equipping an armor with HP bonus \<open>N\<close> adds \<open>N\<close> to the
  maximum HP and to the current HP. Unequipping it takes \<open>N\<close> from the maximum HP only:
  the current HP is not lowered by \<open>N\<close>, it is only cut down to the new maximum when it
  is above it. So after equipping and unequipping, the maximum HP is what it was, and the
  current HP is the smaller of the old HP plus \<open>N\<close> and the old maximum. The current HP is
  what it was when the character was at full HP and \<open>N\<close> is not negative (and the sum does
  not overflow).
\<close>

theorem armor_equip_unequip:
  "HPMax (Stats (fst (EquipArmor a c))) = HPMax (Stats c) + HPBonus a \<and>
   HP (Stats (fst (EquipArmor a c))) = HP (Stats c) + HPBonus a \<and>
   Armor (UnequipArmor (fst (EquipArmor a c))) = None \<and>
   HPMax (Stats (UnequipArmor (fst (EquipArmor a c)))) = HPMax (Stats c) \<and>
   HP (Stats (UnequipArmor (fst (EquipArmor a c)))) =
     (if HPBonus a \<noteq> 0 \<and> HPMax (Stats c) <s HP (Stats c) + HPBonus a
      then HPMax (Stats c) else HP (Stats c) + HPBonus a) \<and>
   (HP (Stats c) = HPMax (Stats c) \<and> 0 \<le>s HPBonus a \<and>
    sint (HPMax (Stats c)) + sint (HPBonus a) < 2 ^ 63 \<longrightarrow>
      HP (Stats (UnequipArmor (fst (EquipArmor a c)))) = HP (Stats c))"
proof -
  have "HPMax (Stats (fst (EquipArmor a c))) = HPMax (Stats c) + HPBonus a"
    and "HP (Stats (fst (EquipArmor a c))) = HP (Stats c) + HPBonus a"
    by (simp_all add: EquipArmor_def)
  moreover have "Armor (UnequipArmor (fst (EquipArmor a c))) = None"
    and "HPMax (Stats (UnequipArmor (fst (EquipArmor a c)))) = HPMax (Stats c)"
    by (simp_all add: EquipArmor_def UnequipArmor_def Let_def)
  ultimately show ?thesis
    using round_trip_hp [of a c] round_trip_full [of c a] by blast
qed

theorem armor_equip_unequip_witness:
  "HP (Stats hero) = HPMax (Stats hero) \<and> 0 \<le>s HPBonus leatherArmor \<and>
   sint (HPMax (Stats hero)) + sint (HPBonus leatherArmor) < 2 ^ 63 \<and>
   HP (Stats (fst (EquipArmor leatherArmor hero))) = 65 \<and>
   HP (Stats (UnequipArmor (fst (EquipArmor leatherArmor hero)))) = 60"
proof -
  have h: "HP (Stats hero) = HPMax (Stats hero) \<and> 0 \<le>s HPBonus leatherArmor \<and>
      sint (HPMax (Stats hero)) + sint (HPBonus leatherArmor) < 2 ^ 63"
    by (simp add: hero_def NewCharacter_def heroStats_def leatherArmor_def word_sle_eq)
  have v: "HP (Stats hero) = 60" "HPBonus leatherArmor = 5"
    by (simp_all add: hero_def NewCharacter_def heroStats_def leatherArmor_def)
  show ?thesis
    using h armor_equip_unequip [of leatherArmor hero] by (simp add: v)
qed

text \<open>
  Claim C4 as it is written fails on a character that is not at full HP: with 10 of 60
  HP, equipping the armor of bonus 5 and unequipping it leaves 15 of 60 HP, no damage
  having been taken in between.
\<close>

theorem armor_round_trip_counterexample:
  "HP (Stats woundedHero) = 10 \<and> HPMax (Stats woundedHero) = 60 \<and>
   HP (Stats (fst (EquipArmor leatherArmor woundedHero))) = 15 \<and>
   HPMax (Stats (fst (EquipArmor leatherArmor woundedHero))) = 65 \<and>
   HP (Stats (UnequipArmor (fst (EquipArmor leatherArmor woundedHero)))) = 15 \<and>
   HPMax (Stats (UnequipArmor (fst (EquipArmor leatherArmor woundedHero)))) = 60 \<and>
   HP (Stats (UnequipArmor (fst (EquipArmor leatherArmor woundedHero)))) \<noteq> HP (Stats woundedHero)"
  by (simp add: woundedHero_def hero_def NewCharacter_def heroStats_def leatherArmor_def
      EquipArmor_def UnequipArmor_def Let_def word_sless_alt)

section \<open>Expiry of status effects\<close>

lemma endTurnLoop_keep:
  "fst (endTurnLoop nm es) = map Tick (filter (\<lambda>e. 0 <s Duration (Tick e)) es)"
  by (induction es) (auto simp: Let_def split: prod.splits)

lemma Effects_endTurn:
  "Effects (fst (ApplyEffectsEndTurn c)) =
     map Tick (filter (\<lambda>e. 0 <s Duration (Tick e)) (Effects c))"
  using endTurnLoop_keep [of "Name c" "Effects c"]
  by (cases "endTurnLoop (Name c) (Effects c)") (simp add: ApplyEffectsEndTurn_def)

lemma endTurn_only_Effects:
  "fst (ApplyEffectsEndTurn c) = c\<lparr>Effects := Effects (fst (ApplyEffectsEndTurn c))\<rparr>"
  by (cases "endTurnLoop (Name c) (Effects c)") (simp add: ApplyEffectsEndTurn_def)

lemma endTurns_only_Effects: "endTurns n c = c\<lparr>Effects := Effects (endTurns n c)\<rparr>"
proof (induction n)
  case 0
  show ?case by simp
next
  case (Suc n)
  have "endTurns (Suc n) c =
        (endTurns n c)\<lparr>Effects := Effects (fst (ApplyEffectsEndTurn (endTurns n c)))\<rparr>"
    using endTurn_only_Effects [of "endTurns n c"] by simp
  also have "\<dots> = c\<lparr>Effects := Effects (endTurns (Suc n) c)\<rparr>"
    by (subst Suc.IH) simp
  finally show ?case .
qed

lemma tick_after:
  "Tick (e\<lparr>Duration := Duration e - of_nat n\<rparr>) = e\<lparr>Duration := Duration e - of_nat (Suc n)\<rparr>"
  by (simp add: Tick_def)

lemma tick_kept:
  assumes ok: "- (2 ^ 63) < sint (Duration e)"
    and l: "n = 0 \<or> int n < sint (Duration e)"
  shows "(0 <s Duration (Tick (e\<lparr>Duration := Duration e - of_nat n\<rparr>))) =
         (int (Suc n) < sint (Duration e))"
proof (cases "n = 0")
  case True
  then show ?thesis
    using sint_dec [OF ok] by (simp add: Tick_def word_sless_alt)
next
  case False
  then have lt: "int n < sint (Duration e)"
    using l by simp
  have nsmall: "int n < 2 ^ 63"
    using lt sint_bounds(2) [of "Duration e"] by linarith
  have sn: "sint (of_nat n :: gint) = int n"
    by (rule sint_of_nat_small [OF nsmall])
  have e1: "sint (Duration e - of_nat n) = sint (Duration e) - int n"
    using lt sint_bounds [of "Duration e"] sn
    by (intro sint_sub_exact [of "Duration e" "of_nat n", unfolded sn]) linarith+
  have e2: "sint (Duration e - of_nat n - 1) = sint (Duration e) - int n - 1"
    using sint_dec [of "Duration e - of_nat n"] e1 lt by simp
  show ?thesis
    using e2 by (auto simp: Tick_def word_sless_alt)
qed

lemma endTurns_Effects:
  assumes "\<forall>e \<in> set (Effects c). - (2 ^ 63) < sint (Duration e)"
  shows "Effects (endTurns n c) =
         map (\<lambda>e. e\<lparr>Duration := Duration e - of_nat n\<rparr>) (lasting n (Effects c))"
proof (induction n)
  case 0
  show ?case by (simp add: lasting_def)
next
  case (Suc n)
  have "Effects (endTurns (Suc n) c) =
        map Tick (filter (\<lambda>e. 0 <s Duration (Tick e))
           (map (\<lambda>e. e\<lparr>Duration := Duration e - of_nat n\<rparr>) (lasting n (Effects c))))"
    by (simp add: Effects_endTurn Suc.IH)
  also have "\<dots> = map (\<lambda>e. Tick (e\<lparr>Duration := Duration e - of_nat n\<rparr>))
        (filter (\<lambda>e. 0 <s Duration (Tick (e\<lparr>Duration := Duration e - of_nat n\<rparr>)))
           (lasting n (Effects c)))"
    by (simp add: filter_map o_def)
  also have "\<dots> =
        map (\<lambda>e. e\<lparr>Duration := Duration e - of_nat (Suc n)\<rparr>) (lasting (Suc n) (Effects c))"
  proof -
    have f: "filter (\<lambda>e. 0 <s Duration (Tick (e\<lparr>Duration := Duration e - of_nat n\<rparr>)))
               (lasting n (Effects c)) = lasting (Suc n) (Effects c)"
      unfolding lasting_def filter_filter
      by (rule filter_cong [OF refl]) (use assms tick_kept in \<open>auto\<close>)
    show ?thesis
      unfolding f by (rule map_cong [OF refl]) (simp add: Tick_def)
  qed
  finally show ?case .
qed

lemma fold_mod_map_Duration:
  "fold (\<lambda>e (a::gint). a + AtkMod e) (map (\<lambda>e. e\<lparr>Duration := g e\<rparr>) es) a0 =
     fold (\<lambda>e a. a + AtkMod e) es a0"
  "fold (\<lambda>e (a::gint). a + DefMod e) (map (\<lambda>e. e\<lparr>Duration := g e\<rparr>) es) a0 =
     fold (\<lambda>e a. a + DefMod e) es a0"
  "fold (\<lambda>e (a::gint). a + SpeedMod e) (map (\<lambda>e. e\<lparr>Duration := g e\<rparr>) es) a0 =
     fold (\<lambda>e a. a + SpeedMod e) es a0"
  by (simp_all add: fold_map o_def)

lemma effective_endTurns:
  assumes "\<forall>e \<in> set (Effects c). - (2 ^ 63) < sint (Duration e)"
  shows "EffectiveAttack (endTurns n c) = EffectiveAttack (c\<lparr>Effects := lasting n (Effects c)\<rparr>)"
    and "EffectiveDefense (endTurns n c) = EffectiveDefense (c\<lparr>Effects := lasting n (Effects c)\<rparr>)"
    and "EffectiveSpeed (endTurns n c) = EffectiveSpeed (c\<lparr>Effects := lasting n (Effects c)\<rparr>)"
proof -
  have e: "endTurns n c =
      c\<lparr>Effects := map (\<lambda>e. e\<lparr>Duration := Duration e - of_nat n\<rparr>) (lasting n (Effects c))\<rparr>"
    using endTurns_only_Effects [of n c] endTurns_Effects [OF assms, of n] by simp
  show "EffectiveAttack (endTurns n c) = EffectiveAttack (c\<lparr>Effects := lasting n (Effects c)\<rparr>)"
    by (subst e) (simp add: EffectiveAttack_def fold_mod_map_Duration split: option.splits)
  show "EffectiveDefense (endTurns n c) = EffectiveDefense (c\<lparr>Effects := lasting n (Effects c)\<rparr>)"
    by (subst e) (simp add: EffectiveDefense_def fold_mod_map_Duration split: option.splits)
  show "EffectiveSpeed (endTurns n c) = EffectiveSpeed (c\<lparr>Effects := lasting n (Effects c)\<rparr>)"
    by (subst e) (simp add: EffectiveSpeed_def fold_mod_map_Duration split: option.splits)
qed

text \<open>
  Claim C9. On a character none of whose effects has the least 64-bit integer as its
  duration (decrementing that one wraps around), the effects left after \<open>n\<close> end-of-turn
  ticks are the effects whose duration was larger than \<open>n\<close>, in their order, each with
  its duration lowered by \<open>n\<close>. So an effect of duration \<open>d > 0\<close> is still there after
  \<open>d - 1\<close> ticks and is gone after \<open>d\<close> ticks. The effective attack, defense and speed
  after \<open>n\<close> ticks are those of the character with only the effects that are left: a
  removed effect adds nothing to them.
\<close>

theorem effects_expire:
  assumes "\<forall>e \<in> set (Effects c). - (2 ^ 63) < sint (Duration e)"
  shows "Effects (endTurns n c) =
           map (\<lambda>e. e\<lparr>Duration := Duration e - of_nat n\<rparr>) (lasting n (Effects c)) \<and>
         (\<forall>x \<in> set (Effects c). 0 < d \<and> sint (Duration x) = int d \<longrightarrow>
            x \<in> set (lasting (d - 1) (Effects c)) \<and> x \<notin> set (lasting d (Effects c))) \<and>
         EffectiveAttack (endTurns n c) = EffectiveAttack (c\<lparr>Effects := lasting n (Effects c)\<rparr>) \<and>
         EffectiveDefense (endTurns n c) = EffectiveDefense (c\<lparr>Effects := lasting n (Effects c)\<rparr>) \<and>
         EffectiveSpeed (endTurns n c) = EffectiveSpeed (c\<lparr>Effects := lasting n (Effects c)\<rparr>)"
proof -
  have "\<forall>x \<in> set (Effects c). 0 < d \<and> sint (Duration x) = int d \<longrightarrow>
            x \<in> set (lasting (d - 1) (Effects c)) \<and> x \<notin> set (lasting d (Effects c))"
    by (auto simp: lasting_def)
  then show ?thesis
    using endTurns_Effects [OF assms, of n] effective_endTurns [OF assms, of n] by blast
qed

theorem effects_expire_witness:
  "list_all (\<lambda>e. - (2 ^ 63) < sint (Duration e)) (Effects affectedHero) \<and>
   Effects affectedHero = [weaken, haste] \<and> Duration weaken = 2 \<and> Duration haste = 3 \<and>
   Effects (endTurns 1 affectedHero) = [weaken\<lparr>Duration := 1\<rparr>, haste\<lparr>Duration := 2\<rparr>] \<and>
   Effects (endTurns 2 affectedHero) = [haste\<lparr>Duration := 1\<rparr>] \<and>
   Effects (endTurns 3 affectedHero) = [] \<and>
   EffectiveAttack affectedHero = 4 \<and>
   EffectiveAttack (endTurns 2 affectedHero) = 6 \<and>
   EffectiveSpeed (endTurns 2 affectedHero) = 11 \<and>
   EffectiveSpeed (endTurns 3 affectedHero) = 7"
proof -
  have h: "\<forall>e \<in> set (Effects affectedHero). - (2 ^ 63) < sint (Duration e)"
    by (simp add: affectedHero_def weaken_def haste_def)
  have e: "Effects affectedHero = [weaken, haste]" "Duration weaken = 2" "Duration haste = 3"
    by (simp_all add: affectedHero_def weaken_def haste_def)
  have l: "lasting (Suc 0) [weaken, haste] = [weaken, haste]" "lasting 2 [weaken, haste] = [haste]"
    "lasting 3 [weaken, haste] = []"
    by (simp_all add: lasting_def weaken_def haste_def)
  have v: "EffectiveAttack affectedHero = 4"
    "EffectiveAttack (affectedHero\<lparr>Effects := [haste]\<rparr>) = 6"
    "EffectiveSpeed (affectedHero\<lparr>Effects := [haste]\<rparr>) = 11"
    "EffectiveSpeed (affectedHero\<lparr>Effects := []\<rparr>) = 7"
    by (simp_all add: EffectiveAttack_def EffectiveSpeed_def affectedHero_def hero_def
        NewCharacter_def heroStats_def weaken_def haste_def)
  have h': "list_all (\<lambda>e. - (2 ^ 63) < sint (Duration e)) (Effects affectedHero)"
    using h by (simp add: list_all_iff)
  show ?thesis
    using h' effects_expire [OF h, of 1 0] effects_expire [OF h, of 2 0]
      effects_expire [OF h, of 3 0]
    by (simp add: e l v)
qed

section \<open>A skill without the MP for it\<close>

text \<open>
  Claim C8. When the skill at a valid index costs more MP than the actor has,
  \<^verbatim>\<open>UseSkillAt\<close> returns normally and the world is what it was (every character of the
  store, with its MP, HP and effects, and the position in the random source), but for one
  more line in the log, which says that the actor lacks the MP for the skill.
\<close>

theorem UseSkillAt_insufficient_MP:
  assumes "0 \<le>s idx" and "idx <s word_of_nat (length (Skills (heap w c)))"
    and "MP (Stats (heap w c)) <s MPCost (Skills (heap w c) ! nat (sint idx))"
  shows "UseSkillAt E c idx targets w =
         Inr (w\<lparr>out := out w @
                  [MLacksMP (Name (heap w c)) (SName (Skills (heap w c) ! nat (sint idx)))]\<rparr>)"
  using assms
  by (simp add: UseSkillAt_def UseMP_def logf_def Let_def word_sle_eq word_sless_alt)

theorem UseSkillAt_insufficient_MP_witness:
  "0 \<le>s (0::gint) \<and> (0::gint) <s word_of_nat (length (Skills (heap mageWorld 0))) \<and>
   MP (Stats (heap mageWorld 0)) = 5 \<and>
   MPCost (Skills (heap mageWorld 0) ! nat (sint (0::gint))) = 8 \<and>
   MP (Stats (heap mageWorld 0)) <s MPCost (Skills (heap mageWorld 0) ! nat (sint (0::gint))) \<and>
   UseSkillAt highRolls 0 0 [Some 1] mageWorld =
     Inr (mageWorld\<lparr>out := [MLacksMP ''Hero'' ''Fireball'']\<rparr>)"
proof -
  have h1: "0 \<le>s (0::gint)"
    by simp
  have h2: "(0::gint) <s word_of_nat (length (Skills (heap mageWorld 0)))"
    by (simp add: mageWorld_def tiredMage_def word_sless_alt)
  have h3: "MP (Stats (heap mageWorld 0)) <s
      MPCost (Skills (heap mageWorld 0) ! nat (sint (0::gint)))"
    by (simp add: mageWorld_def tiredMage_def fireball_def hero_def NewCharacter_def
        word_sless_alt)
  show ?thesis
    using h1 h2 h3 UseSkillAt_insufficient_MP [OF h1 h2 h3, of highRolls "[Some 1]"]
    by (simp add: mageWorld_def tiredMage_def fireball_def hero_def NewCharacter_def)
qed

section \<open>Damage mitigation\<close>

lemma dtypes_distinct:
  "Physical \<noteq> Magic_type" "Pure \<noteq> Physical" "Pure \<noteq> Magic_type"
  by (simp_all add: Physical_def Magic_type_def Pure_def)

lemma actualDamage_cases:
  "actualDamage amount Physical c =
     (if amount - gdiv (EffectiveDefense c) 2 <s 1 then 1
      else amount - gdiv (EffectiveDefense c) 2)"
  "actualDamage amount Magic_type c =
     (if amount - gdiv (Resist (Stats c)) 2 <s 1 then 1 else amount - gdiv (Resist (Stats c)) 2)"
  "actualDamage amount Pure c = (if amount <s 1 then 1 else amount)"
  by (simp_all add: actualDamage_def Let_def dtypes_distinct dtypes_distinct [symmetric])

lemma actualDamage_ge1: "1 \<le>s actualDamage amount dtype c"
  by (simp add: actualDamage_def Let_def word_sle_eq word_sless_alt)

lemma TakeDamage_HP:
  "HP (Stats (fst (TakeDamage amount dtype c))) =
     (if HP (Stats c) - actualDamage amount dtype c \<le>s 0 then 0
      else HP (Stats c) - actualDamage amount dtype c)"
  by (simp add: TakeDamage_def Let_def)

lemma scenario_raw:
  fixes k :: nat
  defines "raw \<equiv> (word_of_nat (k mod 4) + 3 + 6 :: gint)"
  shows "9 \<le>s raw \<and> raw \<le>s 12 \<and> 8 \<le>s raw - 1 \<and> raw - 1 \<le>s 11 \<and> \<not> raw - 1 <s 1"
proof -
  have "k mod 4 < 4"
    by simp
  then consider "k mod 4 = 0" | "k mod 4 = 1" | "k mod 4 = 2" | "k mod 4 = 3"
    by arith
  then show ?thesis
    by cases (simp_all add: raw_def word_sle_eq word_sless_alt)
qed

lemma BasicAttack_scenario:
  assumes al: "Alive (heap w c)"
    and wp: "Weapon (heap w c) = Some wp" "DamageMin wp = 3" "DamageMax wp = 6"
      "WDamageType wp = Physical"
    and atk: "EffectiveAttack (heap w c) = 6"
    and df: "EffectiveDefense (heap w t) = 3"
    and nocrit: "\<not> fst (rnd E (Suc (rpos w))) < CritRate (Stats (heap w c))"
  shows "(let raw = word_of_nat (snd (rnd E (rpos w)) mod 4) + 3 + 6
          in 9 \<le>s raw \<and> raw \<le>s 12 \<and>
             actualDamage raw Physical (heap w t) = raw - 1 \<and>
             8 \<le>s raw - 1 \<and> raw - 1 \<le>s 11 \<and>
             BasicAttack E c (Some t) w =
               Inr (on_char t (TakeDamage raw Physical)
                     (logf [MAttacks (Name (heap w c)) (Name (heap w t)) raw Physical]
                        (w\<lparr>rpos := Suc (Suc (rpos w))\<rparr>))))"
proof -
  let ?raw = "(word_of_nat (snd (rnd E (rpos w)) mod 4) + 3 + 6 :: gint)"
  have r: "9 \<le>s ?raw \<and> ?raw \<le>s 12 \<and> 8 \<le>s ?raw - 1 \<and> ?raw - 1 \<le>s 11 \<and> \<not> ?raw - 1 <s 1"
    by (rule scenario_raw)
  have half: "gdiv 3 2 = 1"
    by (simp add: gdiv_def)
  have ad: "actualDamage ?raw Physical (heap w t) = ?raw - 1"
    using r by (simp add: actualDamage_cases df half)
  have ba: "BasicAttack E c (Some t) w =
            Inr (on_char t (TakeDamage ?raw Physical)
                  (logf [MAttacks (Name (heap w c)) (Name (heap w t)) ?raw Physical]
                     (w\<lparr>rpos := Suc (Suc (rpos w))\<rparr>)))"
    using al wp atk nocrit
    by (simp add: BasicAttack_def weaponProfile_def critRoll_def Intn_def Float64_def logf_def
        Let_def word_sle_eq)
  show ?thesis
    unfolding Let_def using r ad ba by blast
qed

text \<open>
  Claim C7. The damage a hit deals is the raw amount less half the target's effective
  defense for a physical hit, less half the target's \<^verbatim>\<open>Resist\<close> for a magic hit, and the
  raw amount itself for a pure hit, each raised to 1 when it is below 1 (the halves are
  Go's integer division, the differences 64-bit); the target's HP goes down by that
  damage and stops at 0. And the scenario: a living attacker of effective attack 6 with a
  physical weapon of range 3 to 6, who does not roll a critical hit, attacks a target of
  effective defense 3 with a raw amount between 9 and 12, of which the target takes 1
  less, so between 8 and 11.
\<close>

theorem damage_mitigation:
  "actualDamage amount Physical c =
     (if amount - gdiv (EffectiveDefense c) 2 <s 1 then 1
      else amount - gdiv (EffectiveDefense c) 2) \<and>
   actualDamage amount Magic_type c =
     (if amount - gdiv (Resist (Stats c)) 2 <s 1 then 1 else amount - gdiv (Resist (Stats c)) 2) \<and>
   actualDamage amount Pure c = (if amount <s 1 then 1 else amount) \<and>
   HP (Stats (fst (TakeDamage amount dtype c))) =
     (if HP (Stats c) - actualDamage amount dtype c \<le>s 0 then 0
      else HP (Stats c) - actualDamage amount dtype c) \<and>
   (Alive (heap w a) \<and> Weapon (heap w a) = Some wp \<and> DamageMin wp = 3 \<and> DamageMax wp = 6 \<and>
    WDamageType wp = Physical \<and> EffectiveAttack (heap w a) = 6 \<and>
    EffectiveDefense (heap w t) = 3 \<and>
    \<not> fst (rnd E (Suc (rpos w))) < CritRate (Stats (heap w a)) \<longrightarrow>
      (let raw = word_of_nat (snd (rnd E (rpos w)) mod 4) + 3 + 6
       in 9 \<le>s raw \<and> raw \<le>s 12 \<and>
          actualDamage raw Physical (heap w t) = raw - 1 \<and>
          8 \<le>s raw - 1 \<and> raw - 1 \<le>s 11 \<and>
          BasicAttack E a (Some t) w =
            Inr (on_char t (TakeDamage raw Physical)
                  (logf [MAttacks (Name (heap w a)) (Name (heap w t)) raw Physical]
                     (w\<lparr>rpos := Suc (Suc (rpos w))\<rparr>)))))"
  using actualDamage_cases [of amount c] TakeDamage_HP [of amount dtype c]
    BasicAttack_scenario [of w a wp t E]
  by blast

theorem damage_mitigation_witness:
  "Alive (heap duelWorld 0) \<and> Weapon (heap duelWorld 0) = Some plainSword \<and>
   DamageMin plainSword = 3 \<and> DamageMax plainSword = 6 \<and> WDamageType plainSword = Physical \<and>
   EffectiveAttack (heap duelWorld 0) = 6 \<and> EffectiveDefense (heap duelWorld 1) = 3 \<and>
   \<not> fst (rnd highRolls (Suc (rpos duelWorld))) < CritRate (Stats (heap duelWorld 0)) \<and>
   HP (Stats (heap duelWorld 1)) = 35 \<and>
   actualDamage 11 Physical (heap duelWorld 1) = 10 \<and>
   BasicAttack highRolls 0 (Some 1) duelWorld =
     Inr (on_char 1 (TakeDamage 11 Physical)
           (logf [MAttacks ''Hero'' ''Orc'' 11 Physical] (duelWorld\<lparr>rpos := Suc (Suc 0)\<rparr>))) \<and>
   HP (Stats (fst (TakeDamage 11 Physical (heap duelWorld 1)))) = 25"
proof -
  have cr: "float64 (3 / 25) = 1080863910568919 / 9007199254740992"
    by code_simp
  have h: "Alive (heap duelWorld 0) \<and> Weapon (heap duelWorld 0) = Some plainSword \<and>
      DamageMin plainSword = 3 \<and> DamageMax plainSword = 6 \<and> WDamageType plainSword = Physical \<and>
      EffectiveAttack (heap duelWorld 0) = 6 \<and> EffectiveDefense (heap duelWorld 1) = 3 \<and>
      \<not> fst (rnd highRolls (Suc (rpos duelWorld))) < CritRate (Stats (heap duelWorld 0))"
    by (simp add: duelWorld_def swordsman_def hero_def orc_def NewCharacter_def heroStats_def
        orcStats_def plainSword_def highRolls_def EffectiveAttack_def EffectiveDefense_def cr)
  show ?thesis
    using h damage_mitigation [of 11 "heap duelWorld 1" Physical duelWorld 0 plainSword 1 highRolls]
    by (simp add: duelWorld_def swordsman_def hero_def orc_def NewCharacter_def heroStats_def
        orcStats_def plainSword_def highRolls_def EffectiveAttack_def EffectiveDefense_def
        gdiv_def word_sle_eq word_sless_alt Let_def cr)
qed

section \<open>The store under the operations of a battle\<close>

lemma heap_logf [simp]: "heap (logf ms w) = heap w"
  and rpos_logf [simp]: "rpos (logf ms w) = rpos w"
  and out_logf [simp]: "out (logf ms w) = out w @ ms"
  by (simp_all add: logf_def)

lemma heap_on_char [simp]: "heap (on_char t f w) = (heap w)(t := fst (f (heap w t)))"
  and rpos_on_char [simp]: "rpos (on_char t f w) = rpos w"
  by (simp_all add: on_char_def split: prod.splits)

lemma Float64_heap: "Float64 E w = (f, w') \<Longrightarrow> heap w' = heap w"
  by (auto simp: Float64_def)

lemma Intn_heap: "Intn E n w = Inr (r, w') \<Longrightarrow> heap w' = heap w"
  by (auto simp: Intn_def split: if_splits)

lemma critRoll_heap: "critRoll E c amount line w = (x, w') \<Longrightarrow> heap w' = heap w"
  by (auto simp: critRoll_def Float64_def Let_def split: if_splits)

text \<open>What an operation does to the store, when it returns.\<close>

lemma BasicAttack_heap:
  assumes "BasicAttack E c target w = Inr w'"
  shows "heap w' = heap w \<and> \<not> Alive (heap w c) \<or>
         (\<exists>t amount dtype. target = Some t \<and> Alive (heap w c) \<and>
            heap w' = (heap w)(t := fst (TakeDamage amount dtype (heap w t))))"
proof (cases "Alive (heap w c)")
  case False
  then show ?thesis
    using assms by (simp add: BasicAttack_def)
next
  case True
  obtain dmin dmax dtype where wp: "weaponProfile (heap w c) = (dmin, dmax, dtype)"
    by (cases "weaponProfile (heap w c)") auto
  show ?thesis
  proof (cases "Intn E (dmax - dmin + 1) w")
    case (Inl e)
    then show ?thesis
      using assms True wp by (simp add: BasicAttack_def)
  next
    case (Inr p)
    obtain r w1 where p: "p = (r, w1)"
      by (cases p)
    obtain base w2 where cr:
      "critRoll E c (r + dmin + EffectiveAttack (heap w1 c)) (MCrit (Name (heap w1 c))) w1 =
         (base, w2)"
      by (cases "critRoll E c (r + dmin + EffectiveAttack (heap w1 c))
                   (MCrit (Name (heap w1 c))) w1") auto
    have h: "heap w2 = heap w"
      using critRoll_heap [OF cr] Intn_heap [of E _ w r w1] Inr p by simp
    show ?thesis
    proof (cases target)
      case None
      then show ?thesis
        using assms True wp Inr p cr by (simp add: BasicAttack_def)
    next
      case (Some t)
      then have "w' = on_char t (TakeDamage base dtype)
          (logf [MAttacks (Name (heap w2 c)) (Name (heap w2 t)) base dtype] w2)"
        using assms True wp Inr p cr by (simp add: BasicAttack_def)
      then have "heap w' = (heap w)(t := fst (TakeDamage base dtype (heap w t)))"
        using h by simp
      then show ?thesis
        using Some True by blast
    qed
  qed
qed

lemma skillHit_heap:
  assumes "skillHit E c s t w = Inr w'"
  shows "\<exists>amount.
           heap w' = (heap w)(t := fst (TakeDamage amount (DamageType s) (heap w t))) \<and>
             SEffect s = None \<or>
           (\<exists>e. SEffect s = Some e \<and>
             heap w' = (heap w)(t := fst (AddEffect e
                          (fst (TakeDamage amount (DamageType s) (heap w t))))))"
proof (cases "Intn E 3 w")
  case (Inl e)
  then show ?thesis
    using assms by (simp add: skillHit_def Let_def)
next
  case (Inr p)
  obtain r w1 where p: "p = (r, w1)"
    by (cases p)
  let ?power1 = "skillPower E s (heap w c)"
  obtain power w2 where cr:
    "critRoll E c (?power1 + (r - 1)) (MSkillCrit (Name (heap w1 c))) w1 = (power, w2)"
    by (cases "critRoll E c (?power1 + (r - 1)) (MSkillCrit (Name (heap w1 c))) w1") auto
  have h: "heap w2 = heap w"
    using critRoll_heap [OF cr] Intn_heap [of E _ w r w1] Inr p by simp
  let ?w4 = "on_char t (TakeDamage power (DamageType s))
               (logf [MDeals (Name (heap w2 c)) power (Name (heap w2 t)) (SName s)] w2)"
  have w': "w' = (case SEffect s of None \<Rightarrow> ?w4 | Some e \<Rightarrow> on_char t (AddEffect e) ?w4)"
    using assms Inr p cr by (simp add: skillHit_def Let_def)
  show ?thesis
  proof (cases "SEffect s")
    case None
    then have "heap w' = (heap w)(t := fst (TakeDamage power (DamageType s) (heap w t)))"
      using w' h by simp
    then show ?thesis
      using None by blast
  next
    case (Some e)
    then have "heap w' = (heap w)(t := fst (AddEffect e
                          (fst (TakeDamage power (DamageType s) (heap w t)))))"
      using w' h by simp
    then show ?thesis
      using Some by blast
  qed
qed

lemma skillHeal_heap:
  "heap (skillHeal c s t w) =
     (heap w)(t := (case SEffect s of
                      None \<Rightarrow> Heal (HealHP s) (heap w t)
                    | Some e \<Rightarrow> fst (AddEffect e (Heal (HealHP s) (heap w t)))))"
  by (simp add: skillHeal_def Let_def split: option.splits)

section \<open>The dead stay dead\<close>

lemma dead_TakeDamage: "\<not> Alive c \<Longrightarrow> \<not> Alive (fst (TakeDamage amount dtype c))"
  by (simp add: TakeDamage_def Let_def)

lemma Alive_Heal [simp]: "Alive (Heal amount c) = Alive c"
  by (simp add: Heal_def Let_def)

lemma Alive_AddEffect [simp]: "Alive (fst (AddEffect e c)) = Alive c"
  by (simp add: AddEffect_def)

lemma Alive_UseMP [simp]: "Alive (snd (UseMP amount c)) = Alive c"
  by (simp add: UseMP_def)

lemma Alive_EndTurn [simp]: "Alive (fst (ApplyEffectsEndTurn c)) = Alive c"
  by (cases "endTurnLoop (Name c) (Effects c)") (simp add: ApplyEffectsEndTurn_def)

lemma StartTurn_cases:
  "fst (ApplyEffectsStartTurn c) = c \<and> totalDot (Effects c) = 0 \<or>
   fst (ApplyEffectsStartTurn c) = fst (TakeDamage (totalDot (Effects c)) Pure c) \<and>
     totalDot (Effects c) \<noteq> 0"
  by (cases "TakeDamage (totalDot (Effects c)) Pure c")
    (simp add: ApplyEffectsStartTurn_def Let_def)

lemma dead_StartTurn: "\<not> Alive c \<Longrightarrow> \<not> Alive (fst (ApplyEffectsStartTurn c))"
  using StartTurn_cases [of c] dead_TakeDamage [of c "totalDot (Effects c)" Pure] by auto

lemma dead_fun_upd:
  "\<not> Alive (h a) \<Longrightarrow> (\<not> Alive (h t) \<Longrightarrow> \<not> Alive c') \<Longrightarrow> \<not> Alive ((h(t := c')) a)"
  by (cases "a = t") simp_all

lemma dead_BasicAttack:
  assumes "\<not> Alive (heap w a)" and "BasicAttack E c target w = Inr w'"
  shows "\<not> Alive (heap w' a)"
proof -
  from BasicAttack_heap [OF assms(2)] consider "heap w' = heap w"
    | t amount dtype where "heap w' = (heap w)(t := fst (TakeDamage amount dtype (heap w t)))"
    by blast
  then show ?thesis
  proof cases
    case 1
    then show ?thesis using assms(1) by simp
  next
    case 2
    show ?thesis
      unfolding 2 using assms(1) by (rule dead_fun_upd) (rule dead_TakeDamage)
  qed
qed

lemma dead_skillHit:
  assumes "\<not> Alive (heap w a)" and "skillHit E c s t w = Inr w'"
  shows "\<not> Alive (heap w' a)"
proof -
  from skillHit_heap [OF assms(2)] consider amount where
      "heap w' = (heap w)(t := fst (TakeDamage amount (DamageType s) (heap w t)))"
    | amount e where
      "heap w' = (heap w)(t := fst (AddEffect e
                          (fst (TakeDamage amount (DamageType s) (heap w t)))))"
    by blast
  then show ?thesis
  proof cases
    case 1
    show ?thesis
      unfolding 1 using assms(1) by (rule dead_fun_upd) (rule dead_TakeDamage)
  next
    case 2
    show ?thesis
      unfolding 2 using assms(1) by (rule dead_fun_upd) (simp add: dead_TakeDamage)
  qed
qed

lemma dead_skillHeal: "\<not> Alive (heap w a) \<Longrightarrow> \<not> Alive (heap (skillHeal c s t w) a)"
  unfolding skillHeal_heap by (rule dead_fun_upd) (simp_all split: option.splits)

lemma dead_skillDamageLoop:
  "\<not> Alive (heap w a) \<Longrightarrow> skillDamageLoop E c s ts w = Inr w' \<Longrightarrow> \<not> Alive (heap w' a)"
proof (induction E c s ts w rule: skillDamageLoop.induct)
  case (1 E c s w)
  then show ?case by simp
next
  case (2 E c s ts w)
  then show ?case by simp
next
  case (3 E c s t ts w)
  show ?case
  proof (cases "Alive (heap w t)")
    case False
    then show ?thesis using 3 by simp
  next
    case True
    then obtain w1 where h: "skillHit E c s t w = Inr w1"
      and l: "skillDamageLoop E c s ts w1 = Inr w'"
      using "3.prems"(2) by (cases "skillHit E c s t w") auto
    have "\<not> Alive (heap w1 a)"
      using dead_skillHit [OF "3.prems"(1) h] .
    then show ?thesis
      using "3.IH"(2) True h l by simp
  qed
qed

lemma dead_skillHealLoop:
  "\<not> Alive (heap w a) \<Longrightarrow> skillHealLoop c s ts w = Inr w' \<Longrightarrow> \<not> Alive (heap w' a)"
proof (induction c s ts w rule: skillHealLoop.induct)
  case (1 c s w)
  then show ?case by simp
next
  case (2 c s ts w)
  then show ?case by simp
next
  case (3 c s t ts w)
  show ?case
  proof (cases "Alive (heap w t)")
    case False
    then show ?thesis using 3 by simp
  next
    case True
    then show ?thesis
      using 3 dead_skillHeal [of w a c s t] by simp
  qed
qed

lemma dead_castSkill:
  assumes "\<not> Alive (heap w a)" and "castSkill E c s targets w = Inr w'"
  shows "\<not> Alive (heap w' a)"
proof -
  obtain w1 where
    d: "(if 0 < DamageMultiplier s then skillDamageLoop E c s targets w else Inr w) = Inr w1"
    and h: "(if 0 <s HealHP s then skillHealLoop c s targets w1 else Inr w1) = Inr w'"
    using assms(2) unfolding castSkill_def
    by (cases "if 0 < DamageMultiplier s then skillDamageLoop E c s targets w else Inr w") auto
  have "\<not> Alive (heap w1 a)"
    using d assms(1) dead_skillDamageLoop [of w a E c s targets w1] by (auto split: if_splits)
  then show ?thesis
    using h dead_skillHealLoop [of w1 a c s targets w'] by (auto split: if_splits)
qed

lemma UseSkillAt_cases:
  assumes "UseSkillAt E c idx targets w = Inr w'"
  shows "heap w' = heap w \<and>
           (idx <s 0 \<or> word_of_nat (length (Skills (heap w c))) \<le>s idx \<or>
            MP (Stats (heap w c)) <s MPCost (Skills (heap w c) ! nat (sint idx))) \<or>
         (\<not> idx <s 0 \<and> \<not> word_of_nat (length (Skills (heap w c))) \<le>s idx \<and>
          \<not> MP (Stats (heap w c)) <s MPCost (Skills (heap w c) ! nat (sint idx)) \<and>
          (\<exists>w1. heap w1 = (heap w)(c := snd (UseMP (MPCost (Skills (heap w c) ! nat (sint idx)))
                                              (heap w c))) \<and>
             castSkill E c (Skills (heap w c) ! nat (sint idx)) targets w1 = Inr w'))"
proof (cases "idx <s 0 \<or> word_of_nat (length (Skills (heap w c))) \<le>s idx")
  case True
  then show ?thesis
    using assms by (auto simp: UseSkillAt_def)
next
  case valid: False
  let ?s = "Skills (heap w c) ! nat (sint idx)"
  show ?thesis
  proof (cases "MP (Stats (heap w c)) <s MPCost ?s")
    case True
    then show ?thesis
      using assms valid by (auto simp: UseSkillAt_def UseMP_def Let_def)
  next
    case False
    let ?c' = "snd (UseMP (MPCost ?s) (heap w c))"
    let ?w1 = "logf [MUses (Name ?c') (SName ?s)] (w\<lparr>heap := (heap w)(c := ?c')\<rparr>)"
    have "castSkill E c ?s targets ?w1 = Inr w'"
      using assms valid False by (simp add: UseSkillAt_def UseMP_def Let_def)
    moreover have "heap ?w1 = (heap w)(c := ?c')"
      by simp
    ultimately show ?thesis
      using valid False by blast
  qed
qed

lemma dead_UseSkillAt:
  assumes "\<not> Alive (heap w a)" and "UseSkillAt E c idx targets w = Inr w'"
  shows "\<not> Alive (heap w' a)"
proof -
  from UseSkillAt_cases [OF assms(2)] show ?thesis
  proof
    assume "heap w' = heap w \<and>
           (idx <s 0 \<or> word_of_nat (length (Skills (heap w c))) \<le>s idx \<or>
            MP (Stats (heap w c)) <s MPCost (Skills (heap w c) ! nat (sint idx)))"
    then show ?thesis using assms(1) by simp
  next
    assume "\<not> idx <s 0 \<and> \<not> word_of_nat (length (Skills (heap w c))) \<le>s idx \<and>
          \<not> MP (Stats (heap w c)) <s MPCost (Skills (heap w c) ! nat (sint idx)) \<and>
          (\<exists>w1. heap w1 = (heap w)(c := snd (UseMP (MPCost (Skills (heap w c) ! nat (sint idx)))
                                              (heap w c))) \<and>
             castSkill E c (Skills (heap w c) ! nat (sint idx)) targets w1 = Inr w')"
    then obtain w1 where
      h: "heap w1 = (heap w)(c := snd (UseMP (MPCost (Skills (heap w c) ! nat (sint idx)))
                                              (heap w c)))"
      and c: "castSkill E c (Skills (heap w c) ! nat (sint idx)) targets w1 = Inr w'"
      by blast
    have "\<not> Alive (heap w1 a)"
      unfolding h using assms(1) by (rule dead_fun_upd) simp
    then show ?thesis
      using dead_castSkill c by blast
  qed
qed

lemma Intn_range:
  assumes "Intn E n w = Inr (r, w')"
  shows "0 \<le>s r \<and> r <s n"
proof -
  have pos: "0 < sint n" and r: "r = word_of_nat (snd (rnd E (rpos w)) mod nat (sint n))"
    using assms by (auto simp: Intn_def word_sle_eq split: if_splits)
  let ?k = "snd (rnd E (rpos w)) mod nat (sint n)"
  have lt: "int ?k < sint n"
    using pos by (simp add: zmod_int)
  then have "int ?k < 2 ^ 63"
    using sint_bounds(2) [of n] by linarith
  then have "sint r = int ?k"
    unfolding r by (rule sint_of_nat_small)
  then show ?thesis
    using lt by (simp add: word_sle_eq word_sless_alt)
qed

lemma index_in_range:
  assumes "0 \<le>s r" and "r <s (word_of_nat len :: gint)"
  shows "nat (sint r) < len"
proof (cases "int len < 2 ^ 63")
  case True
  then have "sint (word_of_nat len :: gint) = int len"
    by (rule sint_of_nat_small)
  then show ?thesis
    using assms by (simp add: word_sle_eq word_sless_alt)
next
  case False
  then show ?thesis
    using sint_bounds(2) [of r] assms(1) by (simp add: word_sle_eq)
qed

lemma skillAction_cases:
  assumes "skillAction E actor targets w = Inr (used, w')"
  shows "\<not> used \<and> heap w' = heap w \<or>
         used \<and>
         (\<exists>w2 idx. heap w2 = heap w \<and> nat (sint idx) < length (Skills (heap w actor)) \<and>
            \<not> idx <s 0 \<and> \<not> word_of_nat (length (Skills (heap w actor))) \<le>s idx \<and>
            \<not> MP (Stats (heap w actor)) <s MPCost (Skills (heap w actor) ! nat (sint idx)) \<and>
            UseSkillAt E actor idx
              (skillTargets (heap w) actor (Skills (heap w actor) ! nat (sint idx)) targets)
              w2 = Inr w')"
proof (cases "0 < length (Skills (heap w actor))")
  case False
  then show ?thesis
    using assms by (simp add: skillAction_def)
next
  case skills: True
  obtain f w1 where fl: "Float64 E w = (f, w1)"
    by (cases "Float64 E w") auto
  have h1: "heap w1 = heap w"
    using Float64_heap [OF fl] .
  show ?thesis
  proof (cases "f < 0.5")
    case False
    then show ?thesis
      using assms skills fl h1 by (simp add: skillAction_def)
  next
    case low: True
    let ?n = "word_of_nat (length (Skills (heap w actor))) :: gint"
    show ?thesis
    proof (cases "Intn E ?n w1")
      case (Inl e)
      then show ?thesis
        using assms skills fl h1 low by (simp add: skillAction_def)
    next
      case (Inr p)
      obtain idx w2 where p: "p = (idx, w2)"
        by (cases p)
      have i: "Intn E ?n w1 = Inr (idx, w2)"
        using Inr p by simp
      have h2: "heap w2 = heap w"
        using Intn_heap [OF i] h1 by simp
      have rg: "0 \<le>s idx \<and> idx <s ?n"
        using Intn_range [OF i] .
      have inr: "nat (sint idx) < length (Skills (heap w actor))"
        using index_in_range rg by blast
      let ?s = "Skills (heap w actor) ! nat (sint idx)"
      show ?thesis
      proof (cases "MPCost ?s \<le>s MP (Stats (heap w actor))")
        case False
        then show ?thesis
          using assms skills fl h1 low i h2 by (simp add: skillAction_def Let_def)
      next
        case mp: True
        show ?thesis
        proof (cases "UseSkillAt E actor idx (skillTargets (heap w) actor ?s targets) w2")
          case (Inl e)
          then show ?thesis
            using assms skills fl h1 low i h2 mp by (simp add: skillAction_def Let_def)
        next
          case (Inr w3)
          then have "used \<and> w' = w3"
            using assms skills fl h1 low i h2 mp by (simp add: skillAction_def Let_def)
          moreover have "\<not> idx <s 0" "\<not> ?n \<le>s idx" "\<not> MP (Stats (heap w actor)) <s MPCost ?s"
            using rg mp by (simp_all add: word_sle_eq word_sless_alt)
          ultimately show ?thesis
            using Inr h2 inr by blast
        qed
      qed
    qed
  qed
qed

lemma dead_skillAction:
  assumes "\<not> Alive (heap w a)" and "skillAction E actor targets w = Inr (used, w')"
  shows "\<not> Alive (heap w' a)"
  using skillAction_cases [OF assms(2)] assms(1) dead_UseSkillAt
  by (metis)

lemma dead_basicAction:
  assumes "\<not> Alive (heap w a)" and "basicAction E actor targets w = Inr w'"
  shows "\<not> Alive (heap w' a)"
  using assms dead_BasicAttack
  by (cases "chooseFirstAlive (heap w) targets") (auto simp: basicAction_def)

lemma actorTurn_cases:
  assumes "actorTurn E b actor w = Inr w'"
  shows "\<exists>w2 used w3 w4.
           heap w2 = (heap w)(actor := fst (ApplyEffectsStartTurn (heap w actor))) \<and>
           skillAction E actor
             (if Team (heap w2 actor) = ''player'' then Enemies b else Players b) w2 =
             Inr (used, w3) \<and>
           (if \<not> used
            then basicAction E actor
                   (if Team (heap w2 actor) = ''player'' then Enemies b else Players b) w3
            else Inr w3) = Inr w4 \<and>
           heap w' = (heap w4)(actor := fst (ApplyEffectsEndTurn (heap w4 actor)))"
proof -
  let ?w2 = "on_char actor ApplyEffectsStartTurn (logf [MThinking (Name (heap w actor))] w)"
  let ?targets = "if Team (heap ?w2 actor) = ''player'' then Enemies b else Players b"
  obtain used w3 where sa: "skillAction E actor ?targets ?w2 = Inr (used, w3)"
    using assms unfolding actorTurn_def Let_def
    by (cases "skillAction E actor ?targets ?w2") auto
  obtain w4 where ba:
    "(if \<not> used then basicAction E actor ?targets w3 else Inr w3) = Inr w4"
    using assms sa unfolding actorTurn_def Let_def
    by (cases "if \<not> used then basicAction E actor ?targets w3 else Inr w3") auto
  have "w' = on_char actor ApplyEffectsEndTurn w4"
    using assms sa ba unfolding actorTurn_def Let_def by simp
  then have "heap w' = (heap w4)(actor := fst (ApplyEffectsEndTurn (heap w4 actor)))"
    by simp
  moreover have "heap ?w2 = (heap w)(actor := fst (ApplyEffectsStartTurn (heap w actor)))"
    by simp
  ultimately show ?thesis
    using sa ba by blast
qed

lemma dead_actorTurn:
  assumes "\<not> Alive (heap w a)" and "actorTurn E b actor w = Inr w'"
  shows "\<not> Alive (heap w' a)"
proof -
  from actorTurn_cases [OF assms(2)] obtain w2 used w3 w4 where
    h2: "heap w2 = (heap w)(actor := fst (ApplyEffectsStartTurn (heap w actor)))"
    and sa: "skillAction E actor
             (if Team (heap w2 actor) = ''player'' then Enemies b else Players b) w2 =
             Inr (used, w3)"
    and ba: "(if \<not> used
            then basicAction E actor
                   (if Team (heap w2 actor) = ''player'' then Enemies b else Players b) w3
            else Inr w3) = Inr w4"
    and h': "heap w' = (heap w4)(actor := fst (ApplyEffectsEndTurn (heap w4 actor)))"
    by blast
  have "\<not> Alive (heap in2 a)" if "in2 = w2" for in2
    unfolding that h2 using assms(1) by (rule dead_fun_upd) (rule dead_StartTurn)
  then have d2: "\<not> Alive (heap w2 a)"
    by simp
  have d3: "\<not> Alive (heap w3 a)"
    using dead_skillAction [OF d2 sa] .
  have d4: "\<not> Alive (heap w4 a)"
    using ba d3 dead_basicAction [of w3 a E actor _ w4] by (auto split: if_splits)
  show ?thesis
    unfolding h' using d4 by (rule dead_fun_upd) simp
qed

lemma dead_turnLoop:
  "\<not> Alive (heap w a) \<Longrightarrow> turnLoop E b actors w = Inr w' \<Longrightarrow> \<not> Alive (heap w' a)"
proof (induction actors arbitrary: w)
  case Nil
  then show ?case by simp
next
  case (Cons actor rest)
  show ?case
  proof (cases "Alive (heap w actor)")
    case False
    then show ?thesis using Cons by simp
  next
    case True
    then obtain w1 where at: "actorTurn E b actor w = Inr w1"
      using Cons.prems(2) by (cases "actorTurn E b actor w") auto
    have d1: "\<not> Alive (heap w1 a)"
      using dead_actorTurn [OF Cons.prems(1) at] .
    show ?thesis
    proof (cases "AllDead b ''player'' (heap w1) \<or> AllDead b ''enemy'' (heap w1)")
      case True
      then have "w' = w1"
        using Cons.prems(2) \<open>Alive (heap w actor)\<close> at by simp
      then show ?thesis using d1 by simp
    next
      case False
      then have "turnLoop E b rest w1 = Inr w'"
        using Cons.prems(2) \<open>Alive (heap w actor)\<close> at by simp
      then show ?thesis
        using Cons.IH d1 by blast
    qed
  qed
qed

lemma Turn_cases:
  assumes "Turn E b w = Inr (b', w')"
  shows "b' = b\<lparr>Round := Round b + 1\<rparr> \<and>
         (\<exists>w1. heap w1 = heap w \<and>
            turnLoop E b' (turnOrder E b' (heap w)) w1 = Inr w')"
proof -
  let ?b = "b\<lparr>Round := Round b + 1\<rparr>"
  let ?w1 = "logf [MRound (Round ?b)] w"
  have "turnLoop E ?b (turnOrder E ?b (heap ?w1)) ?w1 = Inr w' \<and> b' = ?b"
    using assms unfolding Turn_def Let_def
    by (cases "turnLoop E ?b (turnOrder E ?b (heap ?w1)) ?w1") auto
  then show ?thesis
    by (metis heap_logf)
qed

lemma dead_Turn:
  assumes "\<not> Alive (heap w a)" and "Turn E b w = Inr (b', w')"
  shows "\<not> Alive (heap w' a)"
  using Turn_cases [OF assms(2)] assms(1) dead_turnLoop by metis

lemma dead_Run:
  "\<not> Alive (heap w a) \<Longrightarrow> Run E n b w = Some (Inr (b', w')) \<Longrightarrow> \<not> Alive (heap w' a)"
proof (induction n arbitrary: b w)
  case 0
  then show ?case by (auto split: if_splits)
next
  case (Suc n)
  show ?case
  proof (cases "\<not> AllDead b ''player'' (heap w) \<and> \<not> AllDead b ''enemy'' (heap w)")
    case False
    then show ?thesis using Suc.prems by (auto split: if_splits)
  next
    case True
    then obtain b1 w1 where t: "Turn E b w = Inr (b1, w1)"
      and r: "Run E n b1 w1 = Some (Inr (b', w'))"
      using Suc.prems(2) by (cases "Turn E b w") auto
    show ?thesis
      using Suc.IH [OF dead_Turn [OF Suc.prems(1) t] r] .
  qed
qed

lemma actualDamage_pos: "1 \<le> sint (actualDamage amount dtype c)"
  using actualDamage_ge1 [of amount dtype c] by (simp add: word_sle_eq)

lemma TakeDamage_in_range:
  assumes "0 \<le>s HP (Stats c)" and "HP (Stats c) \<le>s HPMax (Stats c)"
  shows "sint (HP (Stats (fst (TakeDamage amount dtype c)))) =
           max 0 (sint (HP (Stats c)) - sint (actualDamage amount dtype c))"
    and "0 \<le>s HP (Stats (fst (TakeDamage amount dtype c)))"
    and "HP (Stats (fst (TakeDamage amount dtype c))) \<le>s
           HPMax (Stats (fst (TakeDamage amount dtype c)))"
    and "HP (Stats (fst (TakeDamage amount dtype c))) = 0 \<longleftrightarrow>
           sint (HP (Stats c)) \<le> sint (actualDamage amount dtype c)"
    and "Alive (fst (TakeDamage amount dtype c)) \<longleftrightarrow>
           Alive c \<and> sint (actualDamage amount dtype c) < sint (HP (Stats c))"
proof -
  let ?a = "actualDamage amount dtype c"
  have a1: "1 \<le> sint ?a"
    by (rule actualDamage_pos)
  have h0: "0 \<le> sint (HP (Stats c))"
    using assms by (simp add: word_sle_eq)
  have ex: "sint (HP (Stats c) - ?a) = sint (HP (Stats c)) - sint ?a"
    using a1 h0 sint_bounds [of ?a] sint_bounds [of "HP (Stats c)"]
    by (intro sint_sub_exact) linarith+
  show "sint (HP (Stats (fst (TakeDamage amount dtype c)))) =
         max 0 (sint (HP (Stats c)) - sint (actualDamage amount dtype c))"
    by (simp add: TakeDamage_def Let_def word_sle_eq ex max_def)
  show "0 \<le>s HP (Stats (fst (TakeDamage amount dtype c)))"
    by (simp add: TakeDamage_def Let_def word_sle_eq ex)
  show "HP (Stats (fst (TakeDamage amount dtype c))) \<le>s
           HPMax (Stats (fst (TakeDamage amount dtype c)))"
    using assms a1 by (simp add: TakeDamage_def Let_def word_sle_eq ex)
  show "HP (Stats (fst (TakeDamage amount dtype c))) = 0 \<longleftrightarrow>
           sint (HP (Stats c)) \<le> sint (actualDamage amount dtype c)"
    using sint_eq0 [of "HP (Stats c) - ?a"] by (auto simp: TakeDamage_def Let_def word_sle_eq ex)
  show "Alive (fst (TakeDamage amount dtype c)) \<longleftrightarrow>
           Alive c \<and> sint (actualDamage amount dtype c) < sint (HP (Stats c))"
    by (auto simp: TakeDamage_def Let_def word_sle_eq ex)
qed

lemma dead_after_Run:
  assumes "\<not> Alive (heap w a)"
  shows "aliveAfter (Run E n b w) a \<noteq> Some True"
proof (cases "Run E n b w")
  case None
  then show ?thesis by (simp add: aliveAfter_def)
next
  case (Some r)
  show ?thesis
  proof (cases r)
    case (Inl e)
    then show ?thesis using Some by (simp add: aliveAfter_def)
  next
    case (Inr p)
    obtain b' w' where "p = (b', w')"
      by (cases p)
    then show ?thesis
      using Some Inr dead_Run [OF assms, of E n b b' w'] by (simp add: aliveAfter_def)
  qed
qed

text \<open>
  Claim C2. On a character whose HP is between 0 and its maximum, \<^verbatim>\<open>TakeDamage\<close> with any
  raw amount and any damage type leaves the HP between 0 and the maximum; the damage it
  deals is at least 1, and the new HP is the old HP less that damage, or 0 when that is
  not positive. The HP is 0 afterwards exactly when the damage was at least the HP, and
  then the character is not alive afterwards. A character that is not alive is not alive
  after a round either, nor at the end of the battle.
\<close>

theorem damage_hp_invariant:
  assumes "0 \<le>s HP (Stats c)" and "HP (Stats c) \<le>s HPMax (Stats c)"
  shows "0 \<le>s HP (Stats (fst (TakeDamage amount dtype c))) \<and>
         HP (Stats (fst (TakeDamage amount dtype c))) \<le>s
           HPMax (Stats (fst (TakeDamage amount dtype c))) \<and>
         1 \<le>s actualDamage amount dtype c \<and>
         sint (HP (Stats (fst (TakeDamage amount dtype c)))) =
           max 0 (sint (HP (Stats c)) - sint (actualDamage amount dtype c)) \<and>
         (HP (Stats (fst (TakeDamage amount dtype c))) = 0 \<longleftrightarrow>
           sint (HP (Stats c)) \<le> sint (actualDamage amount dtype c)) \<and>
         (HP (Stats (fst (TakeDamage amount dtype c))) = 0 \<longrightarrow>
           \<not> Alive (fst (TakeDamage amount dtype c))) \<and>
         (\<not> Alive (heap w a) \<and> Turn E b w = Inr (b', w') \<longrightarrow> \<not> Alive (heap w' a)) \<and>
         (\<not> Alive (heap w a) \<longrightarrow> aliveAfter (Run E n b w) a \<noteq> Some True)"
  using TakeDamage_in_range [OF assms, of amount dtype] actualDamage_ge1 [of amount dtype c]
    dead_Turn [of w a E b b' w'] dead_after_Run [of w a E n b]
  by auto

theorem damage_hp_invariant_witness:
  "0 \<le>s HP (Stats woundedHero) \<and> HP (Stats woundedHero) \<le>s HPMax (Stats woundedHero) \<and>
   HP (Stats woundedHero) = 10 \<and>
   actualDamage 7 Physical woundedHero = 6 \<and>
   HP (Stats (fst (TakeDamage 7 Physical woundedHero))) = 4 \<and>
   Alive (fst (TakeDamage 7 Physical woundedHero)) \<and>
   actualDamage 50 Pure woundedHero = 50 \<and>
   HP (Stats (fst (TakeDamage 50 Pure woundedHero))) = 0 \<and>
   \<not> Alive (fst (TakeDamage 50 Pure woundedHero)) \<and>
   \<not> Alive (heap graveWorld 2) \<and>
   aliveAfter (Run lowRolls 1 graveBattle graveWorld) 2 = Some False"
proof -
  have h: "0 \<le>s HP (Stats woundedHero)" "HP (Stats woundedHero) \<le>s HPMax (Stats woundedHero)"
    by (simp_all add: woundedHero_def hero_def NewCharacter_def heroStats_def word_sle_eq)
  have d: "\<not> Alive (heap graveWorld 2)"
    by (simp add: graveWorld_def deadEnemy_def)
  have v: "HP (Stats woundedHero) = 10" "actualDamage 7 Physical woundedHero = 6"
    "HP (Stats (fst (TakeDamage 7 Physical woundedHero))) = 4"
    "Alive (fst (TakeDamage 7 Physical woundedHero))"
    "actualDamage 50 Pure woundedHero = 50"
    "HP (Stats (fst (TakeDamage 50 Pure woundedHero))) = 0"
    "\<not> Alive (fst (TakeDamage 50 Pure woundedHero))"
    by code_simp+
  have r: "aliveAfter (Run lowRolls 1 graveBattle graveWorld) 2 = Some False"
    by code_simp
  show ?thesis
    using h d r v damage_hp_invariant [OF h, of 7 Physical graveWorld 2 lowRolls graveBattle
        graveBattle graveWorld 1]
    by blast
qed

section \<open>The winner\<close>

lemma Run_end:
  "Run E n b w = Some (Inr (b', w')) \<Longrightarrow>
     (AllDead b' ''player'' (heap w') \<or> AllDead b' ''enemy'' (heap w')) \<and>
     out w' \<noteq> [] \<and> last (out w') = winnerLine b' (heap w')"
proof (induction n arbitrary: b w)
  case 0
  then show ?case by (auto split: if_splits)
next
  case (Suc n)
  show ?case
  proof (cases "\<not> AllDead b ''player'' (heap w) \<and> \<not> AllDead b ''enemy'' (heap w)")
    case False
    then show ?thesis using Suc.prems by (auto split: if_splits)
  next
    case True
    then obtain b1 w1 where "Run E n b1 w1 = Some (Inr (b', w'))"
      using Suc.prems by (cases "Turn E b w") auto
    then show ?thesis
      by (rule Suc.IH)
  qed
qed

text \<open>
  Claim C1, as the code has it. When \<^verbatim>\<open>Run\<close> ends, one roster at least is fully defeated,
  and the line it reports is the players' win exactly when the enemy roster is fully
  defeated, whether the player roster is fully defeated too or not; it is the enemies'
  win otherwise. So when both rosters are fully defeated, the players are reported as the
  winners.
\<close>

theorem winner_line:
  assumes "battleOutcome (Run E n b w) = Some (playersDead, enemiesDead, line)"
  shows "(playersDead \<or> enemiesDead) \<and>
         (line = MPlayersWin \<longleftrightarrow> enemiesDead) \<and>
         (line = MEnemiesWin \<longleftrightarrow> \<not> enemiesDead) \<and>
         (playersDead \<and> enemiesDead \<longrightarrow> line = MPlayersWin)"
proof -
  from assms obtain b' w' where r: "Run E n b w = Some (Inr (b', w'))"
    and o: "playersDead = AllDead b' ''player'' (heap w')"
      "enemiesDead = AllDead b' ''enemy'' (heap w')" "line = last (out w')"
    by (auto simp: battleOutcome_def split: option.splits sum.splits)
  show ?thesis
    using Run_end [OF r] o by (auto simp: winnerLine_def)
qed

theorem winner_line_witness:
  "\<not> AllDead quickDuel ''player'' (heap quickDuelWorld) \<and>
   \<not> AllDead quickDuel ''enemy'' (heap quickDuelWorld) \<and>
   battleOutcome (Run highRolls 1 quickDuel quickDuelWorld) = Some (True, False, MEnemiesWin)"
proof -
  have a: "\<not> AllDead quickDuel ''player'' (heap quickDuelWorld)"
    "\<not> AllDead quickDuel ''enemy'' (heap quickDuelWorld)"
    by code_simp+
  have h: "battleOutcome (Run highRolls 1 quickDuel quickDuelWorld) =
      Some (True, False, MEnemiesWin)"
    by code_simp
  show ?thesis
    using a h winner_line [OF h] by blast
qed

text \<open>
  Claim C1 as it is written fails when both rosters are defeated in the same round. The
  poisoned player, the last of his roster, dies of the poison at the start of his turn in
  round 1, and then still uses his skill, which kills the last enemy: both rosters are
  fully defeated, and the line reported is the players' win.
\<close>

theorem mutual_defeat_counterexample:
  "\<not> AllDead mutualBattle ''player'' (heap mutualWorld) \<and>
   \<not> AllDead mutualBattle ''enemy'' (heap mutualWorld) \<and>
   battleOutcome (Run lowRolls 1 mutualBattle mutualWorld) = Some (True, True, MPlayersWin)"
  by code_simp

section \<open>The target of a skill\<close>

text \<open>
  Claim C5 fails on the code. The test that sends a skill to its own caster is
  \<^verbatim>\<open>s.HealHP > 0 || (HP < HPMax/2 && Team != "player")\<close>: a non-player actor below half of
  its HP sends any skill to itself, a skill that heals nothing and deals damage too. The
  shaman (3 of 20 HP, team enemy) draws its skill \<^verbatim>\<open>Bolt\<close> (no heal, magic damage): the
  target is the shaman itself, the 3 damage kill it, the hero is not touched, and the
  players win the battle without having acted.
\<close>

theorem damage_skill_hits_caster:
  "HealHP bolt = 0 \<and> \<not> TargetAll bolt \<and> Team (heap shamanWorld 1) = ''enemy'' \<and>
   HP (Stats (heap shamanWorld 1)) = 3 \<and> HPMax (Stats (heap shamanWorld 1)) = 20 \<and>
   chooseFirstAlive (heap shamanWorld) (Players shamanBattle) = Some 0 \<and>
   skillTargets (heap shamanWorld) 1 bolt (Players shamanBattle) = [Some 1] \<and>
   HP (Stats (heap shamanWorld 0)) = 60 \<and>
   hpAfter (Run lowRolls 1 shamanBattle shamanWorld) 0 = Some 60 \<and>
   hpAfter (Run lowRolls 1 shamanBattle shamanWorld) 1 = Some 0 \<and>
   aliveAfter (Run lowRolls 1 shamanBattle shamanWorld) 1 = Some False \<and>
   battleOutcome (Run lowRolls 1 shamanBattle shamanWorld) = Some (False, True, MPlayersWin)"
  by code_simp

section \<open>The order of the actors\<close>

lemma insertBack_insort:
  "insertBack (\<lambda>x y. key y <s key x) x ys = insort_key (\<lambda>a. sint (key a)) x ys"
  by (induction ys) (auto simp: word_sless_alt)

lemma fold_insertBack:
  "fold (insertBack (\<lambda>x y. key y <s key x)) xs acc =
     fold (insort_key (\<lambda>a. sint (key a))) xs acc"
  by (induction xs arbitrary: acc) (simp_all add: insertBack_insort)

lemma mset_fold_insort: "mset (fold (insort_key f) xs acc) = mset xs + mset acc"
  by (induction xs arbitrary: acc) simp_all

lemma sorted_fold_insort:
  "sorted (map f acc) \<Longrightarrow> sorted (map f (fold (insort_key f) xs acc))"
  by (induction xs arbitrary: acc) (simp_all add: sorted_insort_key)

lemma filter_insort_eq:
  assumes "sorted (map f acc)"
  shows "filter (\<lambda>y. f y = f x) (insort_key f x acc) = x # filter (\<lambda>y. f y = f x) acc"
  using assms by (induction acc) auto

lemma filter_fold_insort:
  assumes "sorted (map f acc)"
  shows "filter (\<lambda>y. f y = k) (fold (insort_key f) xs acc) =
         rev (filter (\<lambda>y. f y = k) xs) @ filter (\<lambda>y. f y = k) acc"
  using assms
proof (induction xs arbitrary: acc)
  case Nil
  then show ?case by simp
next
  case (Cons x xs)
  have s: "sorted (map f (insort_key f x acc))"
    using Cons.prems by (simp add: sorted_insort_key)
  show ?case
  proof (cases "f x = k")
    case True
    then show ?thesis
      using Cons.IH [OF s] filter_insort_eq [OF Cons.prems, of x] by simp
  next
    case False
    then show ?thesis
      using Cons.IH [OF s] by (simp add: filter_insort_triv)
  qed
qed

lemma insertionSort_mset: "mset (insertionSort (\<lambda>x y. key y <s key x) xs) = mset xs"
  by (simp add: insertionSort_def fold_insertBack mset_fold_insort)

lemma insertionSort_sorted:
  "sorted_wrt (\<lambda>x y. key y \<le>s key x) (insertionSort (\<lambda>x y. (key y :: gint) <s key x) xs)"
proof -
  have "sorted (map (\<lambda>a. sint (key a)) (fold (insort_key (\<lambda>a. sint (key a))) xs []))"
    by (rule sorted_fold_insort) simp
  then show ?thesis
    by (simp add: insertionSort_def fold_insertBack sorted_wrt_rev sorted_map word_sle_eq)
qed

lemma insertionSort_stable:
  "filter (\<lambda>y. key y = k) (insertionSort (\<lambda>x y. (key y :: gint) <s key x) xs) =
     filter (\<lambda>y. key y = k) xs"
proof -
  have e: "(\<lambda>y. key y = k) = (\<lambda>y. sint (key y) = sint k)"
    by (auto intro: signed_word_eqI)
  let ?P = "\<lambda>y. sint (key y) = sint k"
  let ?l = "fold (insort_key (\<lambda>a. sint (key a))) xs []"
  have "filter ?P ?l = rev (filter ?P xs) @ filter ?P []"
    by (rule filter_fold_insort) simp
  then have "rev (filter ?P ?l) = filter ?P xs"
    by simp
  then have "filter ?P (rev ?l) = filter ?P xs"
    by (simp only: rev_filter)
  then show ?thesis
    unfolding e by (simp only: insertionSort_def fold_insertBack)
qed

lemma sortsDescending_insertionSort: "sortsDescending insertionSort"
  unfolding sortsDescending_def using insertionSort_mset insertionSort_sorted by blast

lemma descending_unique:
  fixes key :: "addr \<Rightarrow> gint"
  assumes "mset ys = mset xs" and "mset zs = mset xs"
    and "sorted_wrt (\<lambda>x y. key y \<le>s key x) ys" and "sorted_wrt (\<lambda>x y. key y \<le>s key x) zs"
    and "distinct (map key xs)"
  shows "ys = zs"
proof -
  let ?f = "\<lambda>a. - sint (key a)"
  have sy: "set ys = set xs" and sz: "set zs = set xs"
    using mset_eq_setD [OF assms(1)] mset_eq_setD [OF assms(2)] by simp_all
  have "inj_on key (set xs)"
    using assms(5) by (simp add: distinct_map)
  moreover have "a = b" if "sint a = sint b" for a b :: gint
    using that by (rule signed_word_eqI)
  ultimately have inj: "inj_on ?f (set xs)"
    unfolding inj_on_def by fastforce
  have dx: "distinct (map ?f xs)"
    using assms(5) inj by (simp add: distinct_map)
  have my: "mset (map ?f ys) = mset (map ?f xs)" and mz: "mset (map ?f zs) = mset (map ?f xs)"
    using assms(1,2) by simp_all
  have dy: "distinct (map ?f ys)"
    using mset_eq_imp_distinct_iff [OF my] dx by simp
  have dz: "distinct (map ?f zs)"
    using mset_eq_imp_distinct_iff [OF mz] dx by simp
  have sry: "sorted (map ?f ys)" and srz: "sorted (map ?f zs)"
    using assms(3,4) by (simp_all add: sorted_map word_sle_eq)
  have "set (map ?f ys) = set (map ?f zs)"
    using sy sz by simp
  then have e: "map ?f ys = map ?f zs"
    by (rule sorted_distinct_set_unique [OF sry dy srz dz])
  have "inj_on ?f (set ys \<union> set zs)"
    using inj sy sz by simp
  then show ?thesis
    using e inj_on_map_eq_map by blast
qed

lemma turnOrder_rnd: "turnOrder (E\<lparr>rnd := r\<rparr>) b h = turnOrder E b h"
  by (simp add: turnOrder_def)

text \<open>
  Claim C6, as the code has it. \<^verbatim>\<open>Turn\<close> orders the players followed by the enemies with
  \<^verbatim>\<open>sort.Slice\<close>, whose contract is that of a sort, not of a stable sort. For every
  \<open>sortSlice\<close> that meets the contract, the order of the actors is a rearrangement of the
  two rosters in which the effective speed never increases, and it does not depend on the
  random source. When the effective speeds are all different, the order is the one of the
  insertion sort, whatever \<open>sortSlice\<close> is: speeds 7, 5, 4, 6 act in the order 7, 6, 5,
  4. Among actors of the same effective speed, the roster order is kept when \<open>sortSlice\<close>
  is the insertion sort (which is stable); the contract alone does not say so.
\<close>

theorem turn_order:
  assumes "sortsDescending (sortSlice E)"
  shows "mset (turnOrder E b h) = mset (Players b @ Enemies b) \<and>
         sorted_wrt (\<lambda>x y. EffectiveSpeed (h y) \<le>s EffectiveSpeed (h x)) (turnOrder E b h) \<and>
         turnOrder (E\<lparr>rnd := r\<rparr>) b h = turnOrder E b h \<and>
         (distinct (map (\<lambda>a. EffectiveSpeed (h a)) (Players b @ Enemies b)) \<longrightarrow>
            turnOrder E b h =
              insertionSort (\<lambda>x y. EffectiveSpeed (h y) <s EffectiveSpeed (h x))
                (Players b @ Enemies b)) \<and>
         (sortSlice E = insertionSort \<longrightarrow>
            filter (\<lambda>a. EffectiveSpeed (h a) = k) (turnOrder E b h) =
              filter (\<lambda>a. EffectiveSpeed (h a) = k) (Players b @ Enemies b))"
proof -
  let ?key = "\<lambda>a. EffectiveSpeed (h a)"
  let ?xs = "Players b @ Enemies b"
  have m: "mset (turnOrder E b h) = mset ?xs"
    and s: "sorted_wrt (\<lambda>x y. ?key y \<le>s ?key x) (turnOrder E b h)"
    using assms [unfolded sortsDescending_def, rule_format, of ?key ?xs]
    by (simp_all add: turnOrder_def)
  have u: "turnOrder E b h = insertionSort (\<lambda>x y. ?key y <s ?key x) ?xs"
    if "distinct (map ?key ?xs)"
    using m insertionSort_mset [of ?key ?xs] s insertionSort_sorted [of ?key ?xs] that
    by (rule descending_unique)
  have st: "filter (\<lambda>a. ?key a = k) (turnOrder E b h) = filter (\<lambda>a. ?key a = k) ?xs"
    if "sortSlice E = insertionSort"
    using that insertionSort_stable [of ?key k ?xs] by (simp add: turnOrder_def)
  show ?thesis
    using m s u st turnOrder_rnd by blast
qed

theorem turn_order_witness:
  "sortsDescending (sortSlice highRolls) \<and> sortSlice highRolls = insertionSort \<and>
   Players raceBattle @ Enemies raceBattle = [10, 11, 12, 13] \<and>
   map (\<lambda>a. EffectiveSpeed (raceHeap a)) [10, 11, 12, 13] = [7, 5, 4, 6] \<and>
   distinct (map (\<lambda>a. EffectiveSpeed (raceHeap a)) (Players raceBattle @ Enemies raceBattle)) \<and>
   turnOrder highRolls raceBattle raceHeap = [10, 13, 11, 12] \<and>
   map (\<lambda>a. EffectiveSpeed (raceHeap a)) (turnOrder highRolls raceBattle raceHeap) = [7, 6, 5, 4] \<and>
   EffectiveSpeed (tieHeap 10) = EffectiveSpeed (tieHeap 11) \<and>
   turnOrder highRolls tieBattle tieHeap = [10, 11]"
proof -
  have i: "sortSlice highRolls = insertionSort"
    by (simp add: highRolls_def)
  have h: "sortsDescending (sortSlice highRolls)"
    unfolding i by (rule sortsDescending_insertionSort)
  have v: "Players raceBattle @ Enemies raceBattle = [10, 11, 12, 13]"
    "map (\<lambda>a. EffectiveSpeed (raceHeap a)) [10, 11, 12, 13] = [7, 5, 4, 6]"
    "distinct (map (\<lambda>a. EffectiveSpeed (raceHeap a)) (Players raceBattle @ Enemies raceBattle))"
    "turnOrder highRolls raceBattle raceHeap = [10, 13, 11, 12]"
    "map (\<lambda>a. EffectiveSpeed (raceHeap a)) (turnOrder highRolls raceBattle raceHeap) = [7, 6, 5, 4]"
    "EffectiveSpeed (tieHeap 10) = EffectiveSpeed (tieHeap 11)"
    "turnOrder highRolls tieBattle tieHeap = [10, 11]"
    by code_simp+
  show ?thesis
    using i h v turn_order [OF h, where b = raceBattle and h = raceHeap and k = 7] by blast
qed

section \<open>The two fields that nothing reads\<close>

lemma scrubC_fields [simp]:
  "ID (scrubC c) = ID c" "Name (scrubC c) = Name c" "Stats (scrubC c) = Stats c"
  "Skills (scrubC c) = Skills c" "Effects (scrubC c) = Effects c"
  "Alive (scrubC c) = Alive c" "Team (scrubC c) = Team c"
  by (simp_all add: scrubC_def)

lemma scrubC_effective [simp]:
  "EffectiveAttack (scrubC c) = EffectiveAttack c"
  "EffectiveDefense (scrubC c) = EffectiveDefense c"
  "EffectiveSpeed (scrubC c) = EffectiveSpeed c"
  "weaponProfile (scrubC c) = weaponProfile c"
  by (cases "Weapon c"; cases "Armor c";
      simp add: scrubC_def EffectiveAttack_def EffectiveDefense_def EffectiveSpeed_def
        weaponProfile_def)+

lemma scrubC_skillPower [simp]: "skillPower E s (scrubC c) = skillPower E s c"
  by (simp add: skillPower_def)

lemma scrubC_actualDamage [simp]:
  "actualDamage amount dtype (scrubC c) = actualDamage amount dtype c"
  by (simp add: actualDamage_def)

lemma scrubC_TakeDamage:
  "TakeDamage amount dtype (scrubC c) = apfst scrubC (TakeDamage amount dtype c)"
  by (simp add: TakeDamage_def Let_def) (simp add: scrubC_def)

lemma scrubC_Heal: "Heal amount (scrubC c) = scrubC (Heal amount c)"
  by (simp add: Heal_def Let_def) (simp add: scrubC_def)

lemma scrubC_UseMP: "UseMP amount (scrubC c) = apsnd scrubC (UseMP amount c)"
  by (simp add: UseMP_def) (simp add: scrubC_def)

lemma scrubC_AddEffect: "AddEffect e (scrubC c) = apfst scrubC (AddEffect e c)"
  by (simp add: AddEffect_def) (simp add: scrubC_def)

lemma scrubC_StartTurn:
  "ApplyEffectsStartTurn (scrubC c) = apfst scrubC (ApplyEffectsStartTurn c)"
  by (cases "TakeDamage (totalDot (Effects c)) Pure c")
    (simp add: ApplyEffectsStartTurn_def Let_def scrubC_TakeDamage)

lemma scrubC_EndTurn:
  "ApplyEffectsEndTurn (scrubC c) = apfst scrubC (ApplyEffectsEndTurn c)"
  by (cases "endTurnLoop (Name c) (Effects c)")
    (simp add: ApplyEffectsEndTurn_def, simp add: scrubC_def)

lemma scrubW_fields [simp]:
  "heap (scrubW w) a = scrubC (heap w a)" "rpos (scrubW w) = rpos w" "out (scrubW w) = out w"
  by (simp_all add: scrubW_def)

lemma scrubW_logf: "logf ms (scrubW w) = scrubW (logf ms w)"
  by (simp add: logf_def scrubW_def)

lemma scrubW_rpos: "(scrubW w)\<lparr>rpos := p\<rparr> = scrubW (w\<lparr>rpos := p\<rparr>)"
  by (simp add: scrubW_def)

lemma scrubW_heap_upd:
  "(scrubW w)\<lparr>heap := (heap (scrubW w))(a := scrubC c)\<rparr> = scrubW (w\<lparr>heap := (heap w)(a := c)\<rparr>)"
  by (simp add: scrubW_def fun_upd_comp)

lemma scrubW_on_char:
  assumes "f (scrubC (heap w t)) = apfst scrubC (f (heap w t))"
  shows "on_char t f (scrubW w) = scrubW (on_char t f w)"
  using assms
  by (cases "f (heap w t)") (simp add: on_char_def scrubW_def fun_upd_comp)

lemma scrubW_Float64: "Float64 E (scrubW w) = apsnd scrubW (Float64 E w)"
  by (simp add: Float64_def scrubW_def)

lemma scrubW_Intn: "Intn E n (scrubW w) = map_sum id (apsnd scrubW) (Intn E n w)"
  by (simp add: Intn_def scrubW_def)

lemma scrubW_critRoll:
  "critRoll E c amount line (scrubW w) = apsnd scrubW (critRoll E c amount line w)"
  by (simp add: critRoll_def Float64_def Let_def scrubW_logf [symmetric] scrubW_rpos [symmetric])

lemma scrubW_BasicAttack:
  "BasicAttack E c target (scrubW w) = map_sum id scrubW (BasicAttack E c target w)"
proof (cases "Alive (heap w c)")
  case False
  then show ?thesis by (simp add: BasicAttack_def)
next
  case True
  obtain dmin dmax dtype where wp: "weaponProfile (heap w c) = (dmin, dmax, dtype)"
    by (cases "weaponProfile (heap w c)") auto
  show ?thesis
  proof (cases "Intn E (dmax - dmin + 1) w")
    case (Inl e)
    then show ?thesis
      using True wp by (simp add: BasicAttack_def scrubW_Intn)
  next
    case (Inr p)
    obtain r w1 where p: "p = (r, w1)"
      by (cases p)
    obtain base w2 where cr:
      "critRoll E c (r + dmin + EffectiveAttack (heap w1 c)) (MCrit (Name (heap w1 c))) w1 =
         (base, w2)"
      by (cases "critRoll E c (r + dmin + EffectiveAttack (heap w1 c))
                   (MCrit (Name (heap w1 c))) w1") auto
    show ?thesis
    proof (cases target)
      case None
      then show ?thesis
        using True wp Inr p cr by (simp add: BasicAttack_def scrubW_Intn scrubW_critRoll)
    next
      case (Some t)
      have "on_char t (TakeDamage base dtype)
              (scrubW (logf [MAttacks (Name (heap w2 c)) (Name (heap w2 t)) base dtype] w2)) =
            scrubW (on_char t (TakeDamage base dtype)
              (logf [MAttacks (Name (heap w2 c)) (Name (heap w2 t)) base dtype] w2))"
        by (rule scrubW_on_char) (rule scrubC_TakeDamage)
      then show ?thesis
        using True wp Inr p cr Some
        by (simp add: BasicAttack_def scrubW_Intn scrubW_critRoll scrubW_logf)
    qed
  qed
qed

lemma scrubW_skillHit:
  "skillHit E c s t (scrubW w) = map_sum id scrubW (skillHit E c s t w)"
proof (cases "Intn E 3 w")
  case (Inl e)
  then show ?thesis
    by (simp add: skillHit_def Let_def scrubW_Intn)
next
  case (Inr p)
  obtain r w1 where p: "p = (r, w1)"
    by (cases p)
  let ?power1 = "skillPower E s (heap w c)"
  obtain power w2 where cr:
    "critRoll E c (?power1 + (r - 1)) (MSkillCrit (Name (heap w1 c))) w1 = (power, w2)"
    by (cases "critRoll E c (?power1 + (r - 1)) (MSkillCrit (Name (heap w1 c))) w1") auto
  let ?w3 = "logf [MDeals (Name (heap w2 c)) power (Name (heap w2 t)) (SName s)] w2"
  let ?w4 = "on_char t (TakeDamage power (DamageType s)) ?w3"
  have a: "on_char t (TakeDamage power (DamageType s)) (scrubW ?w3) = scrubW ?w4"
    by (rule scrubW_on_char) (rule scrubC_TakeDamage)
  have b: "on_char t (AddEffect e) (scrubW ?w4) = scrubW (on_char t (AddEffect e) ?w4)" for e
    by (rule scrubW_on_char) (rule scrubC_AddEffect)
  show ?thesis
    using Inr p cr a b
    by (cases "SEffect s") (simp_all add: skillHit_def Let_def scrubW_Intn scrubW_critRoll scrubW_logf)
qed

lemma scrubW_skillHeal: "skillHeal c s t (scrubW w) = scrubW (skillHeal c s t w)"
proof -
  let ?w1 = "on_char t (\<lambda>x. (Heal (HealHP s) x, [])) w"
  let ?w2 = "logf [MHeals (Name (heap ?w1 c)) (Name (heap ?w1 t)) (HealHP s)] ?w1"
  have a: "on_char t (\<lambda>x. (Heal (HealHP s) x, [])) (scrubW w) = scrubW ?w1"
    by (rule scrubW_on_char) (simp add: scrubC_Heal)
  have b: "on_char t (AddEffect e) (scrubW ?w2) = scrubW (on_char t (AddEffect e) ?w2)" for e
    by (rule scrubW_on_char) (rule scrubC_AddEffect)
  show ?thesis
    using b by (cases "SEffect s") (simp_all add: skillHeal_def Let_def a scrubW_logf)
qed

lemma scrubW_skillDamageLoop:
  "skillDamageLoop E c s ts (scrubW w) = map_sum id scrubW (skillDamageLoop E c s ts w)"
proof (induction E c s ts w rule: skillDamageLoop.induct)
  case (1 E c s w)
  show ?case by simp
next
  case (2 E c s ts w)
  show ?case by simp
next
  case (3 E c s t ts w)
  show ?case
  proof (cases "Alive (heap w t)")
    case False
    then show ?thesis using "3.IH"(1) by simp
  next
    case True
    show ?thesis
    proof (cases "skillHit E c s t w")
      case (Inl e)
      then show ?thesis using True by (simp add: scrubW_skillHit)
    next
      case (Inr w1)
      then show ?thesis using True "3.IH"(2) by (simp add: scrubW_skillHit)
    qed
  qed
qed

lemma scrubW_skillHealLoop:
  "skillHealLoop c s ts (scrubW w) = map_sum id scrubW (skillHealLoop c s ts w)"
proof (induction c s ts w rule: skillHealLoop.induct)
  case (1 c s w)
  show ?case by simp
next
  case (2 c s ts w)
  show ?case by simp
next
  case (3 c s t ts w)
  show ?case
  proof (cases "Alive (heap w t)")
    case False
    then show ?thesis using "3.IH"(1) by simp
  next
    case True
    then show ?thesis using "3.IH"(2) by (simp add: scrubW_skillHeal)
  qed
qed

lemma scrubW_castSkill:
  "castSkill E c s targets (scrubW w) = map_sum id scrubW (castSkill E c s targets w)"
proof (cases "if 0 < DamageMultiplier s then skillDamageLoop E c s targets w else Inr w")
  case (Inl e)
  then show ?thesis
    by (auto simp: castSkill_def scrubW_skillDamageLoop split: if_splits)
next
  case (Inr w1)
  then have "(if 0 < DamageMultiplier s then skillDamageLoop E c s targets (scrubW w)
              else Inr (scrubW w)) = Inr (scrubW w1)"
    by (auto simp: scrubW_skillDamageLoop split: if_splits)
  then show ?thesis
    using Inr by (simp add: castSkill_def scrubW_skillHealLoop)
qed

lemma scrubW_UseSkillAt:
  "UseSkillAt E c idx targets (scrubW w) = map_sum id scrubW (UseSkillAt E c idx targets w)"
proof (cases "idx <s 0 \<or> word_of_nat (length (Skills (heap w c))) \<le>s idx")
  case True
  then show ?thesis
    by (auto simp: UseSkillAt_def scrubW_logf)
next
  case valid: False
  let ?s = "Skills (heap w c) ! nat (sint idx)"
  obtain ok c' where u: "UseMP (MPCost ?s) (heap w c) = (ok, c')"
    by (cases "UseMP (MPCost ?s) (heap w c)") auto
  show ?thesis
  proof (cases ok)
    case False
    then show ?thesis
      using valid u by (simp add: UseSkillAt_def Let_def scrubC_UseMP scrubW_logf)
  next
    case True
    have "logf [MUses (Name c') (SName ?s)]
            ((scrubW w)\<lparr>heap := (heap (scrubW w))(c := scrubC c')\<rparr>) =
          scrubW (logf [MUses (Name c') (SName ?s)] (w\<lparr>heap := (heap w)(c := c')\<rparr>))"
      by (simp add: scrubW_heap_upd scrubW_logf)
    then show ?thesis
      using valid u True
      by (simp add: UseSkillAt_def Let_def scrubC_UseMP scrubW_castSkill)
  qed
qed

lemma scrub_chooseFirstAlive [simp]:
  "chooseFirstAlive (heap (scrubW w)) cs = chooseFirstAlive (heap w) cs"
  by (induction cs) simp_all

lemma scrub_noneAlive [simp]: "noneAlive (heap (scrubW w)) cs = noneAlive (heap w) cs"
  by (induction cs) simp_all

lemma scrub_AllDead [simp]: "AllDead b team (heap (scrubW w)) = AllDead b team (heap w)"
  by (simp add: AllDead_def)

lemma scrub_skillTargets [simp]:
  "skillTargets (heap (scrubW w)) actor s targets = skillTargets (heap w) actor s targets"
  by (simp add: skillTargets_def)

lemma scrub_winnerLine [simp]: "winnerLine b (heap (scrubW w)) = winnerLine b (heap w)"
  by (simp add: winnerLine_def)

lemma scrub_turnOrder [simp]: "turnOrder E b (heap (scrubW w)) = turnOrder E b (heap w)"
  by (simp add: turnOrder_def)

lemma scrubW_skillAction:
  "skillAction E actor targets (scrubW w) =
     map_sum id (apsnd scrubW) (skillAction E actor targets w)"
proof (cases "0 < length (Skills (heap w actor))")
  case False
  then show ?thesis by (simp add: skillAction_def)
next
  case skills: True
  obtain f w1 where fl: "Float64 E w = (f, w1)"
    by (cases "Float64 E w") auto
  show ?thesis
  proof (cases "f < 0.5")
    case False
    then show ?thesis
      using skills fl by (simp add: skillAction_def scrubW_Float64)
  next
    case low: True
    show ?thesis
    proof (cases "Intn E (word_of_nat (length (Skills (heap w1 actor)))) w1")
      case (Inl e)
      then show ?thesis
        using skills fl low by (simp add: skillAction_def scrubW_Float64 scrubW_Intn)
    next
      case (Inr p)
      obtain idx w2 where p: "p = (idx, w2)"
        by (cases p)
      let ?s = "Skills (heap w2 actor) ! nat (sint idx)"
      show ?thesis
      proof (cases "MPCost ?s \<le>s MP (Stats (heap w2 actor))")
        case False
        then show ?thesis
          using skills fl low Inr p
          by (simp add: skillAction_def scrubW_Float64 scrubW_Intn Let_def)
      next
        case True
        show ?thesis
        proof (cases "UseSkillAt E actor idx (skillTargets (heap w2) actor ?s targets) w2")
          case (Inl e)
          then show ?thesis
            using skills fl low Inr p True
            by (simp add: skillAction_def scrubW_Float64 scrubW_Intn Let_def scrubW_UseSkillAt)
        next
          case (Inr w3)
          then show ?thesis
            using skills fl low \<open>Intn E (word_of_nat (length (Skills (heap w1 actor)))) w1 = Inr p\<close>
              p True
            by (simp add: skillAction_def scrubW_Float64 scrubW_Intn Let_def scrubW_UseSkillAt)
        qed
      qed
    qed
  qed
qed

lemma scrubW_basicAction:
  "basicAction E actor targets (scrubW w) = map_sum id scrubW (basicAction E actor targets w)"
  by (cases "chooseFirstAlive (heap w) targets")
    (simp_all add: basicAction_def scrubW_BasicAttack)

lemma scrubW_actorTurn:
  "actorTurn E b actor (scrubW w) = map_sum id scrubW (actorTurn E b actor w)"
proof -
  let ?w1 = "logf [MThinking (Name (heap w actor))] w"
  let ?w2 = "on_char actor ApplyEffectsStartTurn ?w1"
  let ?targets = "if Team (heap ?w2 actor) = ''player'' then Enemies b else Players b"
  have a: "on_char actor ApplyEffectsStartTurn (scrubW ?w1) = scrubW ?w2"
    by (rule scrubW_on_char) (rule scrubC_StartTurn)
  have e: "on_char actor ApplyEffectsEndTurn (scrubW w4) =
           scrubW (on_char actor ApplyEffectsEndTurn w4)" for w4
    by (rule scrubW_on_char) (rule scrubC_EndTurn)
  have l: "actorTurn E b actor (scrubW w) =
      (case skillAction E actor ?targets (scrubW ?w2) of
         Inl e \<Rightarrow> Inl e
       | Inr (usedAction, w3) \<Rightarrow>
           case (if \<not> usedAction then basicAction E actor ?targets w3 else Inr w3) of
             Inl e \<Rightarrow> Inl e
           | Inr w4 \<Rightarrow> Inr (on_char actor ApplyEffectsEndTurn w4))"
    by (simp only: actorTurn_def Let_def scrubW_fields scrubC_fields scrubW_logf a)
  show ?thesis
  proof (cases "skillAction E actor ?targets ?w2")
    case (Inl e)
    then show ?thesis
      unfolding l by (simp add: scrubW_skillAction actorTurn_def Let_def)
  next
    case (Inr p)
    obtain used w3 where p: "p = (used, w3)"
      by (cases p)
    show ?thesis
    proof (cases "if \<not> used then basicAction E actor ?targets w3 else Inr w3")
      case (Inl e)
      then have "(if \<not> used then basicAction E actor ?targets (scrubW w3) else Inr (scrubW w3)) =
                 Inl e"
        by (auto simp: scrubW_basicAction split: if_splits)
      then show ?thesis
        unfolding l using Inr p Inl
        by (simp add: scrubW_skillAction actorTurn_def Let_def)
    next
      case (Inr w4)
      then have "(if \<not> used then basicAction E actor ?targets (scrubW w3) else Inr (scrubW w3)) =
                 Inr (scrubW w4)"
        by (auto simp: scrubW_basicAction split: if_splits)
      then show ?thesis
        unfolding l
        using \<open>skillAction E actor ?targets ?w2 = Inr p\<close> p Inr e
        by (simp add: scrubW_skillAction actorTurn_def Let_def)
    qed
  qed
qed

lemma scrubW_turnLoop:
  "turnLoop E b actors (scrubW w) = map_sum id scrubW (turnLoop E b actors w)"
proof (induction actors arbitrary: w)
  case Nil
  show ?case by simp
next
  case (Cons actor rest)
  show ?case
  proof (cases "Alive (heap w actor)")
    case False
    then show ?thesis using Cons.IH by simp
  next
    case True
    show ?thesis
    proof (cases "actorTurn E b actor w")
      case (Inl e)
      then show ?thesis using True by (simp add: scrubW_actorTurn)
    next
      case (Inr w1)
      then show ?thesis using True Cons.IH [of w1] by (simp add: scrubW_actorTurn)
    qed
  qed
qed

lemma scrubW_Turn: "Turn E b (scrubW w) = map_sum id (apsnd scrubW) (Turn E b w)"
proof -
  let ?b = "b\<lparr>Round := Round b + 1\<rparr>"
  let ?w1 = "logf [MRound (Round ?b)] w"
  show ?thesis
    by (cases "turnLoop E ?b (turnOrder E ?b (heap ?w1)) ?w1")
      (simp_all add: Turn_def Let_def scrubW_logf scrubW_turnLoop)
qed

lemma scrubW_Run: "Run E n b (scrubW w) = scrubR (Run E n b w)"
proof (induction n arbitrary: b w)
  case 0
  show ?case
    by (simp add: scrubR_def scrubW_logf)
next
  case (Suc n)
  show ?case
  proof (cases "\<not> AllDead b ''player'' (heap w) \<and> \<not> AllDead b ''enemy'' (heap w)")
    case False
    then show ?thesis
      by (auto simp: scrubR_def scrubW_logf)
  next
    case True
    show ?thesis
    proof (cases "Turn E b w")
      case (Inl e)
      then show ?thesis
        using True by (simp add: scrubW_Turn scrubR_def)
    next
      case (Inr p)
      obtain b1 w1 where "p = (b1, w1)"
        by (cases p)
      then show ?thesis
        using True Inr Suc.IH [of b1 w1] by (simp add: scrubW_Turn)
    qed
  qed
qed

lemma scrubW_eqI:
  assumes "scrubC \<circ> heap w1 = scrubC \<circ> heap w2" and "rpos w1 = rpos w2"
    and "out w1 = out w2"
  shows "scrubW w1 = scrubW w2"
  using assms by (cases w1; cases w2) (simp add: scrubW_def)

lemma scrubR_views:
  "battleOutcome (scrubR r) = battleOutcome r" "logAfter (scrubR r) = logAfter r"
  "aliveAfter (scrubR r) a = aliveAfter r a" "hpAfter (scrubR r) a = hpAfter r a"
  by (auto simp: scrubR_def battleOutcome_def logAfter_def aliveAfter_def hpAfter_def
      split: option.splits sum.splits)

lemma armor_unread:
  "actualDamage amount Magic_type (c\<lparr>Armor := a\<rparr>) = actualDamage amount Magic_type c"
  by (simp add: actualDamage_def dtypes_distinct dtypes_distinct [symmetric])

lemma weapon_unread:
  "DamageType s = Magic_type \<Longrightarrow> skillPower E s (c\<lparr>Weapon := wp\<rparr>) = skillPower E s c"
  by (simp add: skillPower_def)

text \<open>
  Claim C10. Nothing reads \<^verbatim>\<open>ResistBonus\<close> or \<^verbatim>\<open>MagicBonus\<close>. The damage of a magic hit is
  the same whatever the armor of the target (only \<^verbatim>\<open>Resist\<close> is read), and the power of a
  magic skill is the same whatever the weapon of the caster (only \<^verbatim>\<open>Magic\<close> is read). Two
  worlds that differ in these two fields only, run with the same battle, the same
  environment (the random source in it) and the same fuel, do the same: both run out of
  fuel, or both panic with the same error, or both end in the same battle and in worlds
  that differ in these two fields only, with the same log, the same outcome and the same
  HP and alive flag at every address.
\<close>

theorem bonus_fields_unread:
  assumes "scrubW w1 = scrubW w2"
  shows "scrubR (Run E n b w1) = scrubR (Run E n b w2) \<and>
         logAfter (Run E n b w1) = logAfter (Run E n b w2) \<and>
         battleOutcome (Run E n b w1) = battleOutcome (Run E n b w2) \<and>
         hpAfter (Run E n b w1) a = hpAfter (Run E n b w2) a \<and>
         aliveAfter (Run E n b w1) a = aliveAfter (Run E n b w2) a \<and>
         map_sum id (apsnd scrubW) (Turn E b w1) = map_sum id (apsnd scrubW) (Turn E b w2) \<and>
         actualDamage amount Magic_type (c\<lparr>Armor := ar\<rparr>) = actualDamage amount Magic_type c \<and>
         (DamageType s = Magic_type \<longrightarrow> skillPower E s (c\<lparr>Weapon := wp\<rparr>) = skillPower E s c)"
proof -
  have r: "scrubR (Run E n b w1) = scrubR (Run E n b w2)"
    using assms scrubW_Run [of E n b w1] scrubW_Run [of E n b w2] by simp
  have t: "map_sum id (apsnd scrubW) (Turn E b w1) = map_sum id (apsnd scrubW) (Turn E b w2)"
    using assms scrubW_Turn [of E b w1] scrubW_Turn [of E b w2] by simp
  have "logAfter (Run E n b w1) = logAfter (Run E n b w2)"
    and "battleOutcome (Run E n b w1) = battleOutcome (Run E n b w2)"
    and "hpAfter (Run E n b w1) a = hpAfter (Run E n b w2) a"
    and "aliveAfter (Run E n b w1) a = aliveAfter (Run E n b w2) a"
    using r scrubR_views by metis+
  then show ?thesis
    using r t armor_unread weapon_unread by blast
qed

theorem bonus_fields_unread_witness:
  "scrubW bonusWorld = scrubW plainWorld \<and>
   heap bonusWorld 0 \<noteq> heap plainWorld 0 \<and> heap bonusWorld 1 \<noteq> heap plainWorld 1 \<and>
   DamageType fireball = Magic_type \<and>
   battleOutcome (Run lowRolls 9 mageBattle bonusWorld) = Some (False, True, MPlayersWin) \<and>
   battleOutcome (Run lowRolls 9 mageBattle plainWorld) = Some (False, True, MPlayersWin) \<and>
   logAfter (Run lowRolls 9 mageBattle bonusWorld) = logAfter (Run lowRolls 9 mageBattle plainWorld)"
proof -
  have "scrubC (heap bonusWorld a) = scrubC (heap plainWorld a)" for a
    by (simp add: scrubC_def bonusWorld_def plainWorld_def mage_def armoredOrc_def orc_def
        hero_def NewCharacter_def staff_def leatherArmor_def)
  then have "scrubC \<circ> heap bonusWorld = scrubC \<circ> heap plainWorld"
    by (simp add: fun_eq_iff)
  moreover have "rpos bonusWorld = rpos plainWorld" "out bonusWorld = out plainWorld"
    by (simp_all add: bonusWorld_def plainWorld_def)
  ultimately have h: "scrubW bonusWorld = scrubW plainWorld"
    by (rule scrubW_eqI)
  have v: "heap bonusWorld 0 \<noteq> heap plainWorld 0" "heap bonusWorld 1 \<noteq> heap plainWorld 1"
    "DamageType fireball = Magic_type"
    by (simp_all add: bonusWorld_def plainWorld_def mage_def armoredOrc_def orc_def hero_def
        NewCharacter_def staff_def leatherArmor_def fireball_def)
  have o: "battleOutcome (Run lowRolls 9 mageBattle bonusWorld) = Some (False, True, MPlayersWin)"
    by code_simp
  show ?thesis
    using h v o bonus_fields_unread [OF h, of lowRolls 9 mageBattle]
    by simp
qed

section \<open>The end of the battle and the round counter\<close>






lemma sum_upd_in:
  fixes f :: "Character \<Rightarrow> nat"
  assumes "finite R" and "t \<in> R"
  shows "(\<Sum>a\<in>R. f ((h(t := c)) a)) = f c + (\<Sum>a\<in>R - {t}. f (h a))"
    and "(\<Sum>a\<in>R. f (h a)) = f (h t) + (\<Sum>a\<in>R - {t}. f (h a))"
proof -
  have "(\<Sum>a\<in>R. f ((h(t := c)) a)) = f ((h(t := c)) t) + (\<Sum>a\<in>R - {t}. f ((h(t := c)) a))"
    using assms by (rule sum.remove)
  also have "(\<Sum>a\<in>R - {t}. f ((h(t := c)) a)) = (\<Sum>a\<in>R - {t}. f (h a))"
    by (rule sum.cong) auto
  finally show "(\<Sum>a\<in>R. f ((h(t := c)) a)) = f c + (\<Sum>a\<in>R - {t}. f (h a))"
    by simp
  show "(\<Sum>a\<in>R. f (h a)) = f (h t) + (\<Sum>a\<in>R - {t}. f (h a))"
    using assms by (rule sum.remove)
qed


lemma sum_upd_less:
  fixes f :: "Character \<Rightarrow> nat"
  assumes "finite R" and "t \<in> R" and "f c < f (h t)"
  shows "(\<Sum>a\<in>R. f ((h(t := c)) a)) < (\<Sum>a\<in>R. f (h a))"
  using sum_upd_in(1) [OF assms(1,2), where f = f and h = h and c = c]
    sum_upd_in(2) [OF assms(1,2), where f = f and h = h] assms(3) by simp


lemma fit_AddEffect [simp]:
  "fit (fst (AddEffect e c)) = fit c" "mpOf (fst (AddEffect e c)) = mpOf c"
  "hpOf (fst (AddEffect e c)) = hpOf c"
  by (simp_all add: AddEffect_def fit_def mpOf_def hpOf_def)

lemma fit_EndTurn [simp]:
  "fit (fst (ApplyEffectsEndTurn c)) = fit c" "mpOf (fst (ApplyEffectsEndTurn c)) = mpOf c"
  "hpOf (fst (ApplyEffectsEndTurn c)) = hpOf c"
  by (cases "endTurnLoop (Name c) (Effects c)";
      simp add: ApplyEffectsEndTurn_def fit_def mpOf_def hpOf_def)+







lemma measure_upd_less_mp:
  assumes "finite R" and "t \<in> R" and "mpOf c < mpOf (h t)"
  shows "battleMeasure R (h(t := c)) < battleMeasure R h"
  using sum_upd_less [OF assms(1,2), of mpOf c h] assms(3)
  by (simp add: battleMeasure_def)




lemma fst_eq_le_prod: "fst (x :: nat \<times> nat) = fst y \<Longrightarrow> snd x \<le> snd y \<Longrightarrow> x \<le> y"
  by (cases x; cases y) simp


lemma mpOf_simps [simp]:
  "mpOf (fst (TakeDamage amount dtype c)) = mpOf c"
  "mpOf (Heal amount c) = mpOf c"
  by (simp_all add: TakeDamage_def Heal_def mpOf_def Let_def)















lemma Run_more: "Run E n b w \<noteq> None \<Longrightarrow> Run E (Suc n) b w = Run E n b w"
proof (induction n arbitrary: b w)
  case 0
  then show ?case by (auto split: if_splits)
next
  case (Suc n)
  show ?case
  proof (cases "\<not> AllDead b ''player'' (heap w) \<and> \<not> AllDead b ''enemy'' (heap w)")
    case False
    then show ?thesis by auto
  next
    case True
    show ?thesis
    proof (cases "Turn E b w")
      case (Inl e)
      then show ?thesis using True by simp
    next
      case (Inr p)
      obtain b1 w1 where p: "p = (b1, w1)"
        by (cases p)
      have "Run E n b1 w1 \<noteq> None"
        using Suc.prems True Inr p by simp
      from Suc.IH [OF this] show ?thesis
        using True Inr p by simp
    qed
  qed
qed






end
